theory Spec2Isabelle
  imports Main "HOL-Library.Sublist"
begin

section \<open>Configuration constants of bankier_rss_generator.py\<close>

definition BASE_URL :: string where
  "BASE_URL = ''https://www.bankier.pl''"

definition NEWS_URL :: string where
  "NEWS_URL = BASE_URL @ ''/wiadomosc/''"

definition PAGES_TO_SCAN :: nat where
  "PAGES_TO_SCAN = 5"

definition TIME_FILTER_HOURS :: int where
  "TIME_FILTER_HOURS = 48"

definition OUTPUT_FILE :: string where
  "OUTPUT_FILE = ''bankier_rss.xml''"

definition REQUEST_DELAY :: int where
  "REQUEST_DELAY = 2"

section \<open>Exceptions\<close>

text \<open>
  The exceptions the modelled library calls can raise. The first three are subclasses of
  \<^verbatim>\<open>requests.RequestException\<close>; all of them are subclasses of \<^verbatim>\<open>Exception\<close>.
\<close>

datatype py_error =
  ConnectionError | Timeout | HTTPError | ValueError | TypeError | OverflowError | OSError

fun is_RequestException :: "py_error \<Rightarrow> bool" where
  "is_RequestException ConnectionError = True"
| "is_RequestException Timeout = True"
| "is_RequestException HTTPError = True"
| "is_RequestException ValueError = False"
| "is_RequestException TypeError = False"
| "is_RequestException OverflowError = False"
| "is_RequestException OSError = False"

section \<open>Dates\<close>

text \<open>
  A Python \<^verbatim>\<open>datetime\<close>: the wall-clock reading in microseconds, counted from
  1970-01-01T00:00:00 on the same wall clock, and the UTC offset of its \<^verbatim>\<open>tzinfo\<close>, also in
  microseconds; \<open>None\<close> is a naive datetime. The type holds the wall-clock readings from
  0001-01-01T00:00:00 (\<open>DATETIME_MIN\<close>) to 9999-12-31T23:59:59.999999 (\<open>DATETIME_MAX\<close>).
\<close>

datatype datetime = DateTime (wall: int) (utcoffset: "int option")

definition DATETIME_MIN :: int where
  "DATETIME_MIN = - 62135596800000000"

definition DATETIME_MAX :: int where
  "DATETIME_MAX = 253402300799999999"

text \<open>The absolute instant an aware datetime denotes (microseconds, UTC).\<close>

definition instant :: "datetime \<Rightarrow> int" where
  "instant d = (case utcoffset d of None \<Rightarrow> wall d | Some off \<Rightarrow> wall d - off)"

definition aware :: "datetime \<Rightarrow> bool" where
  "aware d = (utcoffset d \<noteq> None)"

text \<open>
  \<^verbatim>\<open>timedelta(hours=h)\<close> in microseconds. A timedelta holds at most 999999999 days either
  way (the days are the hours divided by 24, rounded down); beyond that the constructor
  raises OverflowError.
\<close>

definition timedelta_hours :: "int \<Rightarrow> py_error + int" where
  "timedelta_hours h =
     (if - 999999999 \<le> h div 24 \<and> h div 24 \<le> 999999999 then Inr (h * 3600000000)
      else Inl OverflowError)"

text \<open>
  \<^verbatim>\<open>dt - delta\<close>: wall-clock arithmetic, the tzinfo is kept; OverflowError when the result
  leaves the range of the type.
\<close>

definition dt_minus :: "datetime \<Rightarrow> int \<Rightarrow> py_error + datetime" where
  "dt_minus d delta =
     (if DATETIME_MIN \<le> wall d - delta \<and> wall d - delta \<le> DATETIME_MAX
      then Inr (DateTime (wall d - delta) (utcoffset d))
      else Inl OverflowError)"

text \<open>
  \<^verbatim>\<open>a >= b\<close> on datetimes: two aware values compare by instant, two naive ones by
  wall clock, and a naive with an aware one raises TypeError.
\<close>

definition dt_ge :: "datetime \<Rightarrow> datetime \<Rightarrow> py_error + bool" where
  "dt_ge a b =
     (case utcoffset a of
        None \<Rightarrow> (case utcoffset b of None \<Rightarrow> Inr (wall b \<le> wall a) | Some ob \<Rightarrow> Inl TypeError)
      | Some oa \<Rightarrow>
          (case utcoffset b of
             None \<Rightarrow> Inl TypeError
           | Some ob \<Rightarrow> Inr (wall b - ob \<le> wall a - oa)))"

text \<open>
  The date library as the code uses it: \<^verbatim>\<open>datetime.fromisoformat(s)\<close> and
  \<^verbatim>\<open>pytz.timezone(zone).localize(dt)\<close>. Both are library code, taken as parameters;
  either may raise.
\<close>

record datelib =
  fromisoformat :: "string \<Rightarrow> py_error + datetime"
  tz_localize :: "string \<Rightarrow> datetime \<Rightarrow> py_error + datetime"

text \<open>
  \<^verbatim>\<open>parse_datetime\<close>: the whole body is inside \<^verbatim>\<open>try ... except Exception\<close>, which
  returns None.
\<close>

definition parse_datetime :: "datelib \<Rightarrow> string \<Rightarrow> datetime option" where
  "parse_datetime L datetime_str =
     (case fromisoformat L datetime_str of
        Inl e \<Rightarrow> None
      | Inr dt \<Rightarrow>
          (if utcoffset dt = None
           then (case tz_localize L ''Europe/Warsaw'' dt of
                   Inl e \<Rightarrow> None
                 | Inr dt' \<Rightarrow> Some dt')
           else Some dt))"

text \<open>
  \<^verbatim>\<open>is_recent\<close>. The reading of \<^verbatim>\<open>datetime.now(pytz.timezone('Europe/Warsaw'))\<close> is the
  parameter \<open>now\<close>; the code reads the clock only when the date is not None. Building
  the timedelta and subtracting it may each raise OverflowError, which is not caught here.
\<close>

definition is_recent :: "datetime option \<Rightarrow> int \<Rightarrow> datetime \<Rightarrow> py_error + bool" where
  "is_recent article_date hours now =
     (case article_date of
        None \<Rightarrow> Inr False
      | Some d \<Rightarrow>
          (case timedelta_hours hours of
             Inl e \<Rightarrow> Inl e
           | Inr delta \<Rightarrow>
               (case dt_minus now delta of
                  Inl e \<Rightarrow> Inl e
                | Inr cutoff \<Rightarrow> dt_ge d cutoff)))"

text \<open>
  For the statement of the recency predicate: the cutoff \<^verbatim>\<open>now - timedelta(hours=hours)\<close>
  can be computed, that is, the window fits a timedelta and the cutoff is a datetime.
\<close>

definition cutoff_representable :: "int \<Rightarrow> datetime \<Rightarrow> bool" where
  "cutoff_representable hours now =
     (- 999999999 \<le> hours div 24 \<and> hours div 24 \<le> 999999999
      \<and> DATETIME_MIN \<le> wall now - hours * 3600000000
      \<and> wall now - hours * 3600000000 \<le> DATETIME_MAX)"

section \<open>Article records\<close>

record article =
  title :: string
  link :: string
  description :: string
  pub_date :: datetime
  guid :: string

section \<open>Deduplication\<close>

text \<open>The loop of \<^verbatim>\<open>remove_duplicates\<close>, with its two local variables \<open>seen\<close> and \<open>unique\<close>.\<close>

fun remove_duplicates_loop :: "article list \<Rightarrow> string set \<Rightarrow> article list \<Rightarrow> article list" where
  "remove_duplicates_loop [] seen unique = unique"
| "remove_duplicates_loop (a # articles) seen unique =
     (if guid a \<notin> seen
      then remove_duplicates_loop articles (insert (guid a) seen) (unique @ [a])
      else remove_duplicates_loop articles seen unique)"

definition remove_duplicates :: "article list \<Rightarrow> article list" where
  "remove_duplicates articles = remove_duplicates_loop articles {} []"

text \<open>
  The same computation without the accumulator: the records whose guid is neither in
  \<open>seen\<close> nor carried by an earlier record. Used to reason about the loop.
\<close>

fun first_seen :: "string set \<Rightarrow> article list \<Rightarrow> article list" where
  "first_seen seen [] = []"
| "first_seen seen (a # articles) =
     (if guid a \<in> seen then first_seen seen articles
      else a # first_seen (insert (guid a) seen) articles)"

section \<open>The libraries the extractor calls\<close>

text \<open>
  The parsed document (BeautifulSoup) and \<^verbatim>\<open>urllib.parse.urljoin\<close> are library code,
  taken as parameters. \<open>'c\<close> is the raw content of a response, \<open>'d\<close> a parsed document in
  its current state (the code mutates it with \<^verbatim>\<open>decompose\<close>), \<open>'e\<close> a handle to one
  element of it.
  \<^item> \<open>find_all d tag cls\<close> is \<^verbatim>\<open>soup.find_all(tag, class_=cls)\<close>;
  \<^item> \<open>find_el d e tag cls\<close> is \<^verbatim>\<open>e.find(tag)\<close> or \<^verbatim>\<open>e.find(tag, class_=c)\<close>, None when
    nothing is found;
  \<^item> \<open>get_attr d e a\<close> is \<^verbatim>\<open>e.get(a)\<close>, \<open>get_text d e\<close> is \<^verbatim>\<open>e.get_text(strip=True)\<close>;
  \<^item> \<open>decompose d e\<close> is the document after \<^verbatim>\<open>e.decompose()\<close>;
  \<^item> \<open>urljoin base url\<close> may raise (ValueError on a malformed reference).
\<close>

record ('c, 'd, 'e) env =
  parse_html :: "'c \<Rightarrow> 'd"
  find_all :: "'d \<Rightarrow> string \<Rightarrow> string \<Rightarrow> 'e list"
  find_el :: "'d \<Rightarrow> 'e \<Rightarrow> string \<Rightarrow> string option \<Rightarrow> 'e option"
  get_attr :: "'d \<Rightarrow> 'e \<Rightarrow> string \<Rightarrow> string option"
  get_text :: "'d \<Rightarrow> 'e \<Rightarrow> string"
  decompose :: "'d \<Rightarrow> 'e \<Rightarrow> 'd"
  urljoin :: "string \<Rightarrow> string \<Rightarrow> py_error + string"
  dates :: datelib

text \<open>\<^verbatim>\<open>s.startswith(p)\<close>\<close>

definition startswith :: "string \<Rightarrow> string \<Rightarrow> bool" where
  "startswith s p = (take (length p) s = p)"

text \<open>Every exception of the model is caught by \<^verbatim>\<open>except Exception\<close>.\<close>

fun is_Exception :: "py_error \<Rightarrow> bool" where
  "is_Exception e = True"

section \<open>Extraction of one candidate block\<close>

text \<open>
  How a stretch of the loop body ends: an exception, a \<^verbatim>\<open>continue\<close>, or falling through
  with the values computed so far.
\<close>

datatype 'a step = Raise py_error | Skip | Go 'a

text \<open>Lines 108 to 134: the title and the link.\<close>

definition title_and_link :: "('c, 'd, 'e) env \<Rightarrow> 'd \<Rightarrow> 'e \<Rightarrow> (string \<times> string) step" where
  "title_and_link E d article_div =
     (case find_el E d article_div ''span'' (Some ''entry-title'') of
        None \<Rightarrow> Skip
      | Some title_span \<Rightarrow>
          (case find_el E d title_span ''a'' None of
             None \<Rightarrow> Skip
           | Some title_link \<Rightarrow>
               (case get_attr E d title_link ''href'' of
                  None \<Rightarrow> Skip
                | Some href \<Rightarrow>
                    if href = [] then Skip
                    else
                      (case (if \<not> startswith href ''http'' then urljoin E BASE_URL href
                             else Inr href) of
                         Inl e \<Rightarrow> Raise e
                       | Inr link_url \<Rightarrow>
                           if \<not> startswith link_url BASE_URL then Skip
                           else Go (get_text E d title_link, link_url)))))"

text \<open>Lines 137 to 145: the time tag, under entry-meta first, then anywhere in the block.\<close>

definition find_time_tag :: "('c, 'd, 'e) env \<Rightarrow> 'd \<Rightarrow> 'e \<Rightarrow> 'e option" where
  "find_time_tag E d article_div =
     (let entry_meta = find_el E d article_div ''div'' (Some ''entry-meta'');
          time_tag = (case entry_meta of
                        None \<Rightarrow> None
                      | Some m \<Rightarrow> find_el E d m ''time'' (Some ''entry-date''))
      in case time_tag of
           None \<Rightarrow> find_el E d article_div ''time'' (Some ''entry-date'')
         | Some t \<Rightarrow> Some t)"

text \<open>Lines 147 to 158: the publication date and the time filter.\<close>

definition recent_pub_date :: "('c, 'd, 'e) env \<Rightarrow> datetime \<Rightarrow> 'd \<Rightarrow> 'e \<Rightarrow> datetime step" where
  "recent_pub_date E now d article_div =
     (case find_time_tag E d article_div of
        None \<Rightarrow> Skip
      | Some time_tag \<Rightarrow>
          (case get_attr E d time_tag ''datetime'' of
             None \<Rightarrow> Skip
           | Some s \<Rightarrow>
               if s = [] then Skip
               else
                 (case parse_datetime (dates E) s of
                    None \<Rightarrow> Skip
                  | Some date \<Rightarrow>
                      (case is_recent (Some date) TIME_FILTER_HOURS now of
                         Inl e \<Rightarrow> Raise e
                       | Inr recent \<Rightarrow> if recent then Go date else Skip))))"

text \<open>
  Lines 161 to 171: the description, the empty string when there is no paragraph; the
  more-link inside the paragraph is removed from the document first.
\<close>

definition find_description :: "('c, 'd, 'e) env \<Rightarrow> 'd \<Rightarrow> 'e \<Rightarrow> string \<times> 'd" where
  "find_description E d article_div =
     (case find_el E d article_div ''div'' (Some ''entry-content'') of
        None \<Rightarrow> ([], d)
      | Some entry_content \<Rightarrow>
          (case find_el E d entry_content ''p'' None of
             None \<Rightarrow> ([], d)
           | Some p_tag \<Rightarrow>
               (let d' = (case find_el E d p_tag ''a'' (Some ''more-link'') of
                            None \<Rightarrow> d
                          | Some more_link \<Rightarrow> decompose E d more_link)
                in (get_text E d' p_tag, d'))))"

text \<open>
  The body of the \<^verbatim>\<open>try\<close> for one candidate, up to \<^verbatim>\<open>articles.append\<close>: the record built,
  if any, and the document as the body leaves it.
\<close>

definition candidate_body ::
  "('c, 'd, 'e) env \<Rightarrow> datetime \<Rightarrow> 'd \<Rightarrow> 'e \<Rightarrow> article step \<times> 'd" where
  "candidate_body E now d article_div =
     (case title_and_link E d article_div of
        Raise e \<Rightarrow> (Raise e, d)
      | Skip \<Rightarrow> (Skip, d)
      | Go (title_text, link_url) \<Rightarrow>
          (case recent_pub_date E now d article_div of
             Raise e \<Rightarrow> (Raise e, d)
           | Skip \<Rightarrow> (Skip, d)
           | Go date \<Rightarrow>
               (case find_description E d article_div of
                  (descr, d') \<Rightarrow>
                    (Go \<lparr>title = title_text, link = link_url,
                         description = (if descr = [] then title_text else descr),
                         pub_date = date, guid = link_url\<rparr>, d'))))"

text \<open>
  The \<^verbatim>\<open>try ... except Exception: continue\<close> around the body: an exception that is an
  \<^verbatim>\<open>Exception\<close> is swallowed, any other would leave the function.
\<close>

definition try_candidate ::
  "('c, 'd, 'e) env \<Rightarrow> datetime \<Rightarrow> 'd \<Rightarrow> article list \<Rightarrow> 'e \<Rightarrow> py_error + (article list \<times> 'd)" where
  "try_candidate E now d articles article_div =
     (case candidate_body E now d article_div of
        (Raise e, d') \<Rightarrow> if is_Exception e then Inr (articles, d') else Inl e
      | (Skip, d') \<Rightarrow> Inr (articles, d')
      | (Go a, d') \<Rightarrow> Inr (articles @ [a], d'))"

text \<open>
  The \<^verbatim>\<open>for idx, article_div in enumerate(article_divs, 1)\<close> loop. \<open>clock idx\<close> is what the
  clock reads when candidate \<open>idx\<close> is filtered.
\<close>

fun candidates_loop ::
  "('c, 'd, 'e) env \<Rightarrow> (nat \<Rightarrow> datetime) \<Rightarrow> nat \<Rightarrow> 'e list \<Rightarrow> 'd \<Rightarrow> article list
     \<Rightarrow> py_error + (article list \<times> 'd)" where
  "candidates_loop E clock idx [] d articles = Inr (articles, d)"
| "candidates_loop E clock idx (article_div # rest) d articles =
     (case try_candidate E (clock idx) d articles article_div of
        Inl e \<Rightarrow> Inl e
      | Inr (articles', d') \<Rightarrow> candidates_loop E clock (Suc idx) rest d' articles')"

definition extract_articles_from_page ::
  "('c, 'd, 'e) env \<Rightarrow> (nat \<Rightarrow> datetime) \<Rightarrow> 'd \<Rightarrow> nat \<Rightarrow> py_error + article list" where
  "extract_articles_from_page E clock soup page_num =
     (case candidates_loop E clock 1 (find_all E soup ''div'' ''article'') soup [] of
        Inl e \<Rightarrow> Inl e
      | Inr (articles, d) \<Rightarrow> Inr articles)"

text \<open>
  The malformed candidates of the extraction contract, in its words: the title span is
  missing; the anchor or its href is missing or empty; the timestamp is missing (no time
  tag in either place, or no datetime attribute) or does not parse; or the body raises.
\<close>

definition title_anchor :: "('c, 'd, 'e) env \<Rightarrow> 'd \<Rightarrow> 'e \<Rightarrow> 'e option" where
  "title_anchor E d c =
     (case find_el E d c ''span'' (Some ''entry-title'') of
        None \<Rightarrow> None
      | Some title_span \<Rightarrow> find_el E d title_span ''a'' None)"

definition malformed :: "('c, 'd, 'e) env \<Rightarrow> datetime \<Rightarrow> 'd \<Rightarrow> 'e \<Rightarrow> bool" where
  "malformed E now d c =
     (find_el E d c ''span'' (Some ''entry-title'') = None
      \<or> (case title_anchor E d c of
            None \<Rightarrow> True
          | Some a \<Rightarrow> get_attr E d a ''href'' = None \<or> get_attr E d a ''href'' = Some [])
      \<or> (case find_time_tag E d c of
            None \<Rightarrow> True
          | Some t \<Rightarrow>
              (case get_attr E d t ''datetime'' of
                 None \<Rightarrow> True
               | Some s \<Rightarrow> s = [] \<or> parse_datetime (dates E) s = None))
      \<or> (case fst (candidate_body E now d c) of Raise e \<Rightarrow> True | Skip \<Rightarrow> False | Go a \<Rightarrow> False))"

section \<open>The outside world: network, clock, files\<close>

text \<open>
  A response of the requests library: \<open>content\<close> is the body as received (what the HTML
  parser is given), \<open>resp_text\<close> the body decoded to text.
\<close>

record 'c response =
  status_code :: int
  content :: 'c
  resp_text :: string
  encoding :: string

text \<open>An entry and a feed of the feedgen library, with the fields the code sets.\<close>

record feed_entry =
  entry_id :: string
  entry_title :: string
  entry_link :: string
  entry_description :: string
  entry_published :: datetime
  entry_updated :: datetime

record feed =
  feed_id :: string
  feed_title :: string
  feed_author :: "string \<times> string"
  feed_link :: string
  feed_description :: string
  feed_language :: string
  feed_updated :: "datetime option"
  feed_entries :: "feed_entry list"

text \<open>The effects of a run, in the order they happen.\<close>

datatype event =
  HttpGet string int
  | Sleep int
  | WriteFile string string
  | WriteRss string feed

text \<open>
  The world the program runs in. The first five fields say how the outside answers and
  never change: \<open>net k url\<close> is the outcome of request number \<open>k\<close> of the run (a response
  or an exception), \<open>filter_clock page idx\<close> what the clock reads when candidate \<open>idx\<close> of
  page \<open>page\<close> is filtered, \<open>feed_clock\<close> what it reads at feed assembly, \<open>rss_writer\<close> and
  \<open>file_writer\<close> whether writing a feed that passed the checks of the library, or a text
  file, fails (with which exception).
  \<open>requests_sent\<close> counts the requests made and \<open>trace\<close> records the effects.
\<close>

record 'c world =
  net :: "nat \<Rightarrow> string \<Rightarrow> py_error + 'c response"
  filter_clock :: "nat \<Rightarrow> nat \<Rightarrow> datetime"
  feed_clock :: datetime
  rss_writer :: "string \<Rightarrow> feed \<Rightarrow> py_error option"
  file_writer :: "string \<Rightarrow> string \<Rightarrow> py_error option"
  requests_sent :: nat
  trace :: "event list"

text \<open>\<^verbatim>\<open>requests.get(url, headers=HEADERS, timeout=t)\<close>\<close>

definition requests_get :: "string \<Rightarrow> int \<Rightarrow> 'c world \<Rightarrow> (py_error + 'c response) \<times> 'c world" where
  "requests_get url timeout w =
     (net w (requests_sent w) url,
      w\<lparr>requests_sent := Suc (requests_sent w), trace := trace w @ [HttpGet url timeout]\<rparr>)"

text \<open>\<^verbatim>\<open>response.raise_for_status()\<close>: HTTPError for a 4xx or 5xx status.\<close>

definition raise_for_status :: "'c response \<Rightarrow> py_error + unit" where
  "raise_for_status r =
     (if 400 \<le> status_code r \<and> status_code r < 600 then Inl HTTPError else Inr ())"

text \<open>\<^verbatim>\<open>time.sleep(seconds)\<close>\<close>

definition sleep :: "int \<Rightarrow> 'c world \<Rightarrow> 'c world" where
  "sleep seconds w = w\<lparr>trace := trace w @ [Sleep seconds]\<rparr>"

section \<open>Fetching a page\<close>

text \<open>\<^verbatim>\<open>get_page_url\<close>; \<open>decimal\<close> is \<^verbatim>\<open>str\<close> on a natural number.\<close>

fun decimal :: "nat \<Rightarrow> string" where
  "decimal n =
     (if n < 10 then [char_of (48 + n)]
      else decimal (n div 10) @ [char_of (48 + n mod 10)])"

definition get_page_url :: "nat \<Rightarrow> string" where
  "get_page_url page_number =
     (if page_number = 1 then NEWS_URL else NEWS_URL @ decimal page_number @ ''/'')"

text \<open>The body of the \<^verbatim>\<open>try\<close> in \<^verbatim>\<open>fetch_page\<close>: the request, the status check, the encoding.\<close>

definition try_fetch :: "string \<Rightarrow> 'c world \<Rightarrow> (py_error + 'c response) \<times> 'c world" where
  "try_fetch url w =
     (case requests_get url 15 w of
        (Inl e, w1) \<Rightarrow> (Inl e, w1)
      | (Inr response, w1) \<Rightarrow>
          (case raise_for_status response of
             Inl e \<Rightarrow> (Inl e, w1)
           | Inr u \<Rightarrow> (Inr (response\<lparr>encoding := ''utf-8''\<rparr>), w1)))"

text \<open>
  The loop \<^verbatim>\<open>for attempt in range(retry)\<close> over the attempts still to make. Only a
  \<^verbatim>\<open>requests.RequestException\<close> is caught; when the loop runs out the function returns
  None implicitly.
\<close>

fun fetch_attempts ::
  "string \<Rightarrow> int \<Rightarrow> nat list \<Rightarrow> 'c world \<Rightarrow> (py_error + 'c response option) \<times> 'c world" where
  "fetch_attempts url retry [] w = (Inr None, w)"
| "fetch_attempts url retry (attempt # rest) w =
     (case try_fetch url w of
        (Inr response, w1) \<Rightarrow> (Inr (Some response), w1)
      | (Inl e, w1) \<Rightarrow>
          if is_RequestException e
          then (if int attempt < retry - 1
                then fetch_attempts url retry rest (sleep ((int attempt + 1) * 2) w1)
                else (Inr None, w1))
          else (Inl e, w1))"

definition fetch_page :: "string \<Rightarrow> int \<Rightarrow> 'c world \<Rightarrow> (py_error + 'c response option) \<times> 'c world" where
  "fetch_page url retry w = fetch_attempts url retry [0..<nat retry] w"

text \<open>
  For the statement of the retry schedule: the outcome of the attempt made with request
  number \<open>requests_sent w + i\<close>, whether an outcome is a transport-level failure, what
  \<^verbatim>\<open>fetch_page\<close> returns when that attempt is its last, and the effects of \<open>k\<close> failed
  attempts, each followed by its wait, counted from attempt \<open>a\<close>.
\<close>

definition attempt_outcome :: "'c world \<Rightarrow> string \<Rightarrow> nat \<Rightarrow> py_error + 'c response" where
  "attempt_outcome w url i =
     (case net w (requests_sent w + i) url of
        Inl e \<Rightarrow> Inl e
      | Inr response \<Rightarrow>
          (case raise_for_status response of
             Inl e \<Rightarrow> Inl e
           | Inr u \<Rightarrow> Inr (response\<lparr>encoding := ''utf-8''\<rparr>)))"

definition transport_failure :: "py_error + 'c response \<Rightarrow> bool" where
  "transport_failure x = (case x of Inl e \<Rightarrow> is_RequestException e | Inr r \<Rightarrow> False)"

definition attempt_result :: "py_error + 'c response \<Rightarrow> py_error + 'c response option" where
  "attempt_result x =
     (case x of
        Inr response \<Rightarrow> Inr (Some response)
      | Inl e \<Rightarrow> if is_RequestException e then Inr None else Inl e)"

definition failed_attempts :: "string \<Rightarrow> nat \<Rightarrow> nat \<Rightarrow> event list" where
  "failed_attempts url a k =
     concat (map (\<lambda>i. [HttpGet url 15, Sleep ((int i + 1) * 2)]) [a..<a + k])"

section \<open>Feed assembly\<close>

text \<open>
  \<^verbatim>\<open>sorted(articles, key=lambda x: x['pub_date'], reverse=True)\<close>. The built-in is
  library code; it is modelled from its documentation: the sort is stable, also with
  \<^verbatim>\<open>reverse=True\<close>, so its result is the one list that is descending by key and keeps
  records with equal keys in input order, which insertion from the right computes.
  Ordering a naive against an aware datetime raises TypeError.
\<close>

fun insert_newest_first :: "article \<Rightarrow> article list \<Rightarrow> article list" where
  "insert_newest_first a [] = [a]"
| "insert_newest_first a (b # bs) =
     (if instant (pub_date a) < instant (pub_date b) then b # insert_newest_first a bs
      else a # b # bs)"

definition sorted_newest_first :: "article list \<Rightarrow> py_error + article list" where
  "sorted_newest_first articles =
     (if list_all (\<lambda>a. aware (pub_date a)) articles
         \<or> list_all (\<lambda>a. \<not> aware (pub_date a)) articles
      then Inr (foldr insert_newest_first articles [])
      else Inl TypeError)"

text \<open>
  The feedgen library, modelled from its documentation: \<^verbatim>\<open>FeedGenerator()\<close> starts without
  entries; \<^verbatim>\<open>add_entry(feedEntry=None, order='prepend')\<close> inserts the new entry at the
  beginning of the feed unless \<^verbatim>\<open>order='append'\<close> is given; \<^verbatim>\<open>fe.published\<close> raises
  ValueError for a datetime without timezone; the RSS file lists the entries in the
  order of the feed; \<^verbatim>\<open>rss_file\<close> raises ValueError when the channel lacks a title, a link
  or a description, and when an entry has neither a title nor a description (nor a
  content, which the code never sets).
\<close>

datatype entry_order = Prepend | Append

definition FeedGenerator :: feed where
  "FeedGenerator = \<lparr>feed_id = [], feed_title = [], feed_author = ([], []), feed_link = [],
      feed_description = [], feed_language = [], feed_updated = None, feed_entries = []\<rparr>"

definition add_entry :: "entry_order \<Rightarrow> feed_entry \<Rightarrow> feed \<Rightarrow> feed" where
  "add_entry ord fe fg =
     (case ord of
        Prepend \<Rightarrow> fg\<lparr>feed_entries := fe # feed_entries fg\<rparr>
      | Append \<Rightarrow> fg\<lparr>feed_entries := feed_entries fg @ [fe]\<rparr>)"

definition entry_of :: "article \<Rightarrow> feed_entry" where
  "entry_of a = \<lparr>entry_id = guid a, entry_title = title a, entry_link = link a,
      entry_description = description a, entry_published = pub_date a,
      entry_updated = pub_date a\<rparr>"

text \<open>
  The loop \<^verbatim>\<open>for article in articles_sorted\<close>: \<^verbatim>\<open>fg.add_entry()\<close> with the default order,
  then the setters.
\<close>

fun add_articles :: "article list \<Rightarrow> feed \<Rightarrow> py_error + feed" where
  "add_articles [] fg = Inr fg"
| "add_articles (a # rest) fg =
     (if aware (pub_date a) then add_articles rest (add_entry Prepend (entry_of a) fg)
      else Inl ValueError)"

text \<open>
  The feed generator after the channel setters of \<^verbatim>\<open>generate_rss_feed\<close>; \<open>now\<close> is the
  clock reading passed to \<^verbatim>\<open>fg.updated\<close>. The channel title and description are given
  in UTF-8, Polish letters as their bytes.
\<close>

definition channel :: "datetime \<Rightarrow> feed" where
  "channel now =
     FeedGenerator
       \<lparr>feed_id := NEWS_URL,
        feed_title := ''Bankier.pl - Wiadomo'' @ [CHR 0xC5, CHR 0x9B] @ ''ci'',
        feed_author := (''Bankier.pl'', ''redakcja@bankier.pl''),
        feed_link := NEWS_URL,
        feed_description :=
          ''Najnowsze wiadomo'' @ [CHR 0xC5, CHR 0x9B] @ ''ci z serwisu Bankier.pl'',
        feed_language := ''pl'',
        feed_updated := Some now\<rparr>"

text \<open>
  \<^verbatim>\<open>fg.rss_file(output_file, pretty=True)\<close>: the checks of the library, then the write,
  which the world lets fail or not.
\<close>

definition rss_file :: "string \<Rightarrow> feed \<Rightarrow> 'c world \<Rightarrow> (py_error + unit) \<times> 'c world" where
  "rss_file path fg w =
     (if feed_title fg = [] \<or> feed_link fg = [] \<or> feed_description fg = []
      then (Inl ValueError, w)
      else if list_ex (\<lambda>e. entry_title e = [] \<and> entry_description e = []) (feed_entries fg)
      then (Inl ValueError, w)
      else
        (case rss_writer w path fg of
           Some e \<Rightarrow> (Inl e, w)
         | None \<Rightarrow> (Inr (), w\<lparr>trace := trace w @ [WriteRss path fg]\<rparr>)))"

definition generate_rss_feed ::
  "article list \<Rightarrow> string \<Rightarrow> 'c world \<Rightarrow> (py_error + unit) \<times> 'c world" where
  "generate_rss_feed articles output_file w =
     (let fg = channel (feed_clock w)
      in case sorted_newest_first articles of
           Inl e \<Rightarrow> (Inl e, w)
         | Inr articles_sorted \<Rightarrow>
             (case add_articles articles_sorted fg of
                Inl e \<Rightarrow> (Inl e, w)
              | Inr fg' \<Rightarrow> rss_file output_file fg' w))"

text \<open>The feed handed to the writer for a list of records with aware dates.\<close>

definition assembled :: "datetime \<Rightarrow> article list \<Rightarrow> feed" where
  "assembled now articles =
     (channel now)\<lparr>feed_entries := rev (map entry_of (foldr insert_newest_first articles []))\<rparr>"

text \<open>The feeds written during a run, each with the titles of its entries in file order.\<close>

fun written_feeds :: "event list \<Rightarrow> (string \<times> string list) list" where
  "written_feeds [] = []"
| "written_feeds (WriteRss path fg # evs) =
     (path, map entry_title (feed_entries fg)) # written_feeds evs"
| "written_feeds (ev # evs) = written_feeds evs"

section \<open>The pipeline driver\<close>

text \<open>
  The loop \<^verbatim>\<open>for page_num in range(1, PAGES_TO_SCAN + 1)\<close> over the pages still to scan,
  with the accumulator \<open>all_articles\<close>. \<^verbatim>\<open>fetch_page(url)\<close> is called with its default
  \<^verbatim>\<open>retry=3\<close>; a page that could not be fetched is skipped without the delay.
\<close>

fun scan_pages ::
  "('c, 'd, 'e) env \<Rightarrow> nat list \<Rightarrow> article list \<Rightarrow> 'c world
     \<Rightarrow> (py_error + article list) \<times> 'c world" where
  "scan_pages E [] all_articles w = (Inr all_articles, w)"
| "scan_pages E (page_num # rest) all_articles w =
     (case fetch_page (get_page_url page_num) 3 w of
        (Inl e, w1) \<Rightarrow> (Inl e, w1)
      | (Inr None, w1) \<Rightarrow> scan_pages E rest all_articles w1
      | (Inr (Some response), w1) \<Rightarrow>
          (case extract_articles_from_page E (filter_clock w1 page_num)
                  (parse_html E (content response)) page_num of
             Inl e \<Rightarrow> (Inl e, w1)
           | Inr articles \<Rightarrow>
               scan_pages E rest (all_articles @ articles)
                 (if page_num < PAGES_TO_SCAN then sleep REQUEST_DELAY w1 else w1)))"

text \<open>
  The branch \<^verbatim>\<open>if not all_articles\<close>: the request and the write are inside
  \<^verbatim>\<open>try ... except Exception\<close>, which prints and goes on.
\<close>

definition debug_dump :: "'c world \<Rightarrow> 'c world" where
  "debug_dump w =
     (case requests_get NEWS_URL 10 w of
        (Inl e, w1) \<Rightarrow> w1
      | (Inr response, w1) \<Rightarrow>
          (case file_writer w1 ''debug.html'' (resp_text response) of
             Some e \<Rightarrow> w1
           | None \<Rightarrow> w1\<lparr>trace := trace w1 @ [WriteFile ''debug.html'' (resp_text response)]\<rparr>))"

text \<open>\<^verbatim>\<open>main\<close>, from the summary on, and as a whole.\<close>

definition finish :: "article list \<Rightarrow> 'c world \<Rightarrow> (py_error + int) \<times> 'c world" where
  "finish all_articles w =
     (if all_articles = [] then (Inr 1, debug_dump w)
      else
        (let unique_articles = remove_duplicates all_articles
         in case generate_rss_feed unique_articles OUTPUT_FILE w of
              (Inl e, w1) \<Rightarrow> (Inl e, w1)
            | (Inr u, w1) \<Rightarrow> (Inr 0, w1)))"

definition main :: "('c, 'd, 'e) env \<Rightarrow> 'c world \<Rightarrow> (py_error + int) \<times> 'c world" where
  "main E w =
     (case scan_pages E [1..<PAGES_TO_SCAN + 1] [] w of
        (Inl e, w1) \<Rightarrow> (Inl e, w1)
      | (Inr all_articles, w1) \<Rightarrow> finish all_articles w1)"

text \<open>
  The \<^verbatim>\<open>__main__\<close> block: \<^verbatim>\<open>sys.exit(main())\<close>, and status 1 for an exception that leaves
  \<^verbatim>\<open>main\<close>.
\<close>

definition exit_status :: "('c, 'd, 'e) env \<Rightarrow> 'c world \<Rightarrow> int" where
  "exit_status E w = (case fst (main E w) of Inl e \<Rightarrow> 1 | Inr status \<Rightarrow> status)"

section \<open>Stand-ins for the date library, for concrete evaluation\<close>

text \<open>
  A table of timestamps (without and with an offset; the first instant of the datetime
  type among them) and a localisation that gives Europe/Warsaw its winter offset of one
  hour and any other zone the offset zero. Like pytz, the localisation first looks one
  day to either side of the naive datetime, which raises OverflowError within a day of
  the ends of the range.
\<close>

definition fromisoformat_table :: "string \<Rightarrow> py_error + datetime" where
  "fromisoformat_table s =
     (if s = ''2025-12-30T11:44:00'' then Inr (DateTime 1767095040000000 None)
      else if s = ''2025-12-30T11:44:00+01:00'' then Inr (DateTime 1767095040000000 (Some 3600000000))
      else if s = ''2025-12-27T09:00:00+01:00'' then Inr (DateTime 1766826000000000 (Some 3600000000))
      else if s = ''0001-01-01T00:00:00'' then Inr (DateTime (- 62135596800000000) None)
      else Inl ValueError)"

definition localize_winter :: "string \<Rightarrow> datetime \<Rightarrow> py_error + datetime" where
  "localize_winter zone dt =
     (if wall dt - 86400000000 < DATETIME_MIN \<or> DATETIME_MAX < wall dt + 86400000000
      then Inl OverflowError
      else if zone = ''Europe/Warsaw'' then Inr (DateTime (wall dt) (Some 3600000000))
      else Inr (DateTime (wall dt) (Some 0)))"

definition datelib0 :: datelib where
  "datelib0 = \<lparr>fromisoformat = fromisoformat_table, tz_localize = localize_winter\<rparr>"

text \<open>The same library, except that every zone but Europe/Warsaw fails to localise.\<close>

definition datelib_warsaw_only :: datelib where
  "datelib_warsaw_only = \<lparr>fromisoformat = fromisoformat_table,
      tz_localize = (\<lambda>zone. if zone = ''Europe/Warsaw'' then localize_winter zone
                              else (\<lambda>dt. Inl ValueError))\<rparr>"

text \<open>The same library, except that it localises every zone as UTC.\<close>

definition datelib_utc :: datelib where
  "datelib_utc = \<lparr>fromisoformat = fromisoformat_table,
      tz_localize = (\<lambda>zone dt. Inr (DateTime (wall dt) (Some 0)))\<rparr>"

section \<open>A small document model, for concrete evaluation\<close>

text \<open>
  An instance of the document library on explicit trees. A tag carries an identifier
  (its handle), a name, its attributes and its children; the root stands for the
  BeautifulSoup object. \<open>find\<close> searches the descendants in document order, a class
  matches when it is one of the whitespace-separated names of the class attribute,
  \<open>get_text\<close> joins the stripped non-empty strings, \<open>decompose\<close> removes the subtree.
\<close>

datatype node = Text string | Tag nat string "(string \<times> string) list" "node list"

fun subnodes :: "node \<Rightarrow> node list" where
  "subnodes (Text s) = []"
| "subnodes (Tag i name attrs children) = concat (map (\<lambda>c. c # subnodes c) children)"

fun node_id :: "node \<Rightarrow> nat option" where
  "node_id (Text s) = None"
| "node_id (Tag i name attrs children) = Some i"

fun node_attrs :: "node \<Rightarrow> (string \<times> string) list" where
  "node_attrs (Text s) = []"
| "node_attrs (Tag i name attrs children) = attrs"

fun node_string :: "node \<Rightarrow> string" where
  "node_string (Text s) = s"
| "node_string (Tag i name attrs children) = []"

definition is_space :: "char \<Rightarrow> bool" where
  "is_space c = (c = CHR '' '' \<or> c = CHR 0x09 \<or> c = CHR 0x0A \<or> c = CHR 0x0D)"

definition strip :: "string \<Rightarrow> string" where
  "strip s = rev (dropWhile is_space (rev (dropWhile is_space s)))"

fun split_words :: "string \<Rightarrow> string \<Rightarrow> string list" where
  "split_words [] cur = (if cur = [] then [] else [cur])"
| "split_words (c # cs) cur =
     (if is_space c then (if cur = [] then split_words cs [] else cur # split_words cs [])
      else split_words cs (cur @ [c]))"

fun matches :: "string \<Rightarrow> string option \<Rightarrow> node \<Rightarrow> bool" where
  "matches tag cls (Text s) = False"
| "matches tag cls (Tag i name attrs children) =
     (name = tag \<and>
      (case cls of
         None \<Rightarrow> True
       | Some c \<Rightarrow>
           (case map_of attrs ''class'' of
              None \<Rightarrow> False
            | Some v \<Rightarrow> c \<in> set (split_words v []))))"

definition dom_lookup :: "node \<Rightarrow> nat \<Rightarrow> node option" where
  "dom_lookup d i = find (\<lambda>n. node_id n = Some i) (d # subnodes d)"

definition dom_find_all :: "node \<Rightarrow> string \<Rightarrow> string \<Rightarrow> nat list" where
  "dom_find_all d tag cls = List.map_filter node_id (filter (matches tag (Some cls)) (subnodes d))"

definition dom_find :: "node \<Rightarrow> nat \<Rightarrow> string \<Rightarrow> string option \<Rightarrow> nat option" where
  "dom_find d i tag cls =
     (case dom_lookup d i of
        None \<Rightarrow> None
      | Some n \<Rightarrow>
          (case find (matches tag cls) (subnodes n) of
             None \<Rightarrow> None
           | Some m \<Rightarrow> node_id m))"

definition dom_get :: "node \<Rightarrow> nat \<Rightarrow> string \<Rightarrow> string option" where
  "dom_get d i a = (case dom_lookup d i of None \<Rightarrow> None | Some n \<Rightarrow> map_of (node_attrs n) a)"

definition dom_get_text :: "node \<Rightarrow> nat \<Rightarrow> string" where
  "dom_get_text d i =
     (case dom_lookup d i of
        None \<Rightarrow> []
      | Some n \<Rightarrow> concat (map (\<lambda>m. strip (node_string m)) (subnodes n)))"

fun dom_decompose :: "node \<Rightarrow> nat \<Rightarrow> node" where
  "dom_decompose (Text s) i = Text s"
| "dom_decompose (Tag j name attrs children) i =
     Tag j name attrs (map (\<lambda>c. dom_decompose c i) (filter (\<lambda>c. node_id c \<noteq> Some i) children))"

text \<open>
  A stand-in for \<^verbatim>\<open>urljoin\<close> against a base without a path, for references without a
  scheme: a network-path reference takes the scheme of the base, any other reference is
  put under the root; an opening bracket without its closing one is the library's
  ValueError (invalid IPv6 URL).
\<close>

definition urljoin_root :: "string \<Rightarrow> string \<Rightarrow> py_error + string" where
  "urljoin_root base url =
     (if CHR ''['' \<in> set url \<and> CHR '']'' \<notin> set url then Inl ValueError
      else if startswith url ''//'' then Inr (takeWhile (\<lambda>c. c \<noteq> CHR '':'') base @ '':'' @ url)
      else if startswith url ''/'' then Inr (base @ url)
      else Inr (base @ ''/'' @ url))"

definition dom_env :: "(node, node, nat) env" where
  "dom_env = \<lparr>parse_html = (\<lambda>c. c), find_all = dom_find_all, find_el = dom_find,
      get_attr = dom_get, get_text = dom_get_text, decompose = dom_decompose,
      urljoin = urljoin_root, dates = datelib0\<rparr>"

text \<open>The clock at 2025-12-30 13:00 in Warsaw (UTC+1).\<close>

definition noon_clock :: "nat \<Rightarrow> datetime" where
  "noon_clock idx = DateTime 1767099600000000 (Some 3600000000)"

text \<open>Builders for the sample pages.\<close>

definition article_div :: "nat \<Rightarrow> node list \<Rightarrow> node" where
  "article_div i children = Tag i ''div'' [(''class'', ''article'')] children"

definition title_node :: "nat \<Rightarrow> string \<Rightarrow> string \<Rightarrow> node" where
  "title_node i href caption =
     Tag i ''span'' [(''class'', ''entry-title'')]
       [Tag (i + 1) ''a'' [(''href'', href)] (if caption = [] then [] else [Text caption])]"

definition date_node :: "nat \<Rightarrow> string \<Rightarrow> node" where
  "date_node i stamp = Tag i ''time'' [(''class'', ''entry-date''), (''datetime'', stamp)] []"

text \<open>
  A page with four candidates: a complete one (date under entry-meta, a paragraph with a
  read-more link), one without a title span, one whose href makes urljoin raise, and a
  complete one with a naive timestamp and no paragraph.
\<close>

definition page_mixed :: node where
  "page_mixed =
     Tag 0 ''[document]'' []
       [article_div 1
          [title_node 2 ''/wiadomosc/a-1.html'' ''Alpha'',
           Tag 4 ''div'' [(''class'', ''entry-meta'')] [date_node 5 ''2025-12-30T11:44:00+01:00''],
           Tag 6 ''div'' [(''class'', ''entry-content'')]
             [Tag 7 ''p'' []
                [Text ''Lead '',
                 Tag 8 ''a'' [(''class'', ''more-link''), (''href'', ''/wiadomosc/a-1.html'')]
                   [Text ''Czytaj dalej'']]]],
        article_div 9 [Tag 10 ''p'' [] [Text ''no title here'']],
        article_div 11 [title_node 12 ''//[bad'' ''Beta'', date_node 14 ''2025-12-30T11:44:00+01:00''],
        article_div 15 [title_node 16 ''/wiadomosc/a-4.html'' ''Delta'', date_node 18 ''2025-12-30T11:44:00'']]"

text \<open>The records of the first and the fourth candidate of \<open>page_mixed\<close>.\<close>

definition alpha_record :: article where
  "alpha_record = \<lparr>title = ''Alpha'', link = ''https://www.bankier.pl/wiadomosc/a-1.html'',
      description = ''Lead'', pub_date = DateTime 1767095040000000 (Some 3600000000),
      guid = ''https://www.bankier.pl/wiadomosc/a-1.html''\<rparr>"

definition delta_record :: article where
  "delta_record = \<lparr>title = ''Delta'', link = ''https://www.bankier.pl/wiadomosc/a-4.html'',
      description = ''Delta'', pub_date = DateTime 1767095040000000 (Some 3600000000),
      guid = ''https://www.bankier.pl/wiadomosc/a-4.html''\<rparr>"

text \<open>
  \<^verbatim>\<open><div class="article"><span class="entry-title"><a href="https://www.bankier.pl.evil.com/x">Promo</a></span>
  <time class="entry-date" datetime="2025-12-30T11:44:00+01:00"></time></div>\<close>
\<close>

definition page_foreign :: node where
  "page_foreign =
     Tag 0 ''[document]'' []
       [article_div 1
          [title_node 2 ''https://www.bankier.pl.evil.com/x'' ''Promo'',
           date_node 4 ''2025-12-30T11:44:00+01:00'']]"

text \<open>
  \<^verbatim>\<open><div class="article"><span class="entry-title"><a href="/wiadomosc/a-2.html"></a></span>
  <time class="entry-date" datetime="2025-12-30T11:44:00+01:00"></time></div>\<close>
\<close>

definition page_untitled :: node where
  "page_untitled =
     Tag 0 ''[document]'' []
       [article_div 1
          [title_node 2 ''/wiadomosc/a-2.html'' [],
           date_node 4 ''2025-12-30T11:44:00+01:00'']]"

text \<open>
  The origin of an absolute URL, in the sense of the claim about links: the scheme and
  the authority (everything up to the first slash, question mark or hash after
  \<^verbatim>\<open>://\<close>); the empty string when the URL has no \<^verbatim>\<open>://\<close> after its scheme.
\<close>

definition url_origin :: "string \<Rightarrow> string" where
  "url_origin u =
     (let scheme = takeWhile (\<lambda>c. c \<noteq> CHR '':'') u;
          rest = drop (length scheme) u
      in if startswith rest ''://''
         then scheme @ ''://'' @
              takeWhile (\<lambda>c. c \<noteq> CHR ''/'' \<and> c \<noteq> CHR ''?'' \<and> c \<noteq> CHR ''#'') (drop 3 rest)
         else [])"

section \<open>Sample worlds, for concrete evaluation\<close>

text \<open>
  A network that answers the requests of a run from a list, in order, and fails to
  connect afterwards; files can be written; the clock stands at 2025-12-30 13:00 Warsaw.
\<close>

definition scripted_world :: "(py_error + node response) list \<Rightarrow> node world" where
  "scripted_world answers =
     \<lparr>net = (\<lambda>k url. if k < length answers then answers ! k else Inl ConnectionError),
      filter_clock = (\<lambda>page. noon_clock),
      feed_clock = DateTime 1767099600000000 (Some 3600000000),
      rss_writer = (\<lambda>path fg. None),
      file_writer = (\<lambda>path body. None),
      requests_sent = 0,
      trace = []\<rparr>"

definition ok_response :: "node \<Rightarrow> py_error + node response" where
  "ok_response page =
     Inr \<lparr>status_code = 200, content = page, resp_text = ''<html>listing</html>'',
          encoding = ''ISO-8859-1''\<rparr>"

definition status_response :: "int \<Rightarrow> py_error + node response" where
  "status_response code =
     Inr \<lparr>status_code = code, content = Tag 0 ''[document]'' [] [],
          resp_text = ''<html>error</html>'', encoding = ''ISO-8859-1''\<rparr>"

text \<open>
  Three runs: only the first listing page can be fetched (it is \<open>page_mixed\<close>); nothing
  can be fetched at all; and the fifteen page requests time out while the sixteenth
  request of the run is answered with status 404.
\<close>

definition world_first_page_only :: "node world" where
  "world_first_page_only = scripted_world [ok_response page_mixed]"

definition world_offline :: "node world" where
  "world_offline = scripted_world []"

definition world_dump_404 :: "node world" where
  "world_dump_404 = scripted_world (replicate 15 (Inl Timeout) @ [status_response 404])"

text \<open>
  Three more runs: the first two listing pages can be fetched and show the same
  candidates (both are \<open>page_mixed\<close>); only the first page can be fetched and it is
  \<open>page_untitled\<close>; and only the first page can be fetched (\<open>page_mixed\<close>) but the
  feed file cannot be written.
\<close>

definition world_same_page_twice :: "node world" where
  "world_same_page_twice = scripted_world [ok_response page_mixed, ok_response page_mixed]"

definition world_untitled_page :: "node world" where
  "world_untitled_page = scripted_world [ok_response page_untitled]"

definition world_read_only :: "node world" where
  "world_read_only = (scripted_world [ok_response page_mixed])\<lparr>rss_writer := (\<lambda>path fg. Some OSError)\<rparr>"

text \<open>Two records, the older one first.\<close>

definition older_article :: article where
  "older_article = \<lparr>title = ''Older'', link = ''https://www.bankier.pl/wiadomosc/o.html'',
      description = ''Older'', pub_date = DateTime 1767000000000000 (Some 3600000000),
      guid = ''https://www.bankier.pl/wiadomosc/o.html''\<rparr>"

definition newer_article :: article where
  "newer_article = \<lparr>title = ''Newer'', link = ''https://www.bankier.pl/wiadomosc/n.html'',
      description = ''Newer'', pub_date = DateTime 1767090000000000 (Some 3600000000),
      guid = ''https://www.bankier.pl/wiadomosc/n.html''\<rparr>"

section \<open>The recency predicate\<close>

lemma dt_ge_aware:
  "aware a \<Longrightarrow> aware b \<Longrightarrow> dt_ge a b = Inr (instant b \<le> instant a)"
  by (auto simp: dt_ge_def aware_def instant_def)

lemma dt_minus_cases:
  "dt_minus d delta =
     (if DATETIME_MIN \<le> wall d - delta \<and> wall d - delta \<le> DATETIME_MAX
      then Inr (DateTime (wall d - delta) (utcoffset d)) else Inl OverflowError)"
  by (simp add: dt_minus_def)

lemma instant_shifted:
  "instant (DateTime (wall d - delta) (utcoffset d)) = instant d - delta"
  by (simp add: instant_def split: option.splits)

lemma is_recent_aware:
  assumes "aware t" and "aware now"
  shows "is_recent (Some t) w now =
           (if cutoff_representable w now then Inr (instant now - w * 3600000000 \<le> instant t)
            else Inl OverflowError)"
proof (cases "cutoff_representable w now")
  case True
  have aw: "aware (DateTime (wall now - w * 3600000000) (utcoffset now))"
    using assms(2) by (simp add: aware_def)
  from True dt_ge_aware [OF assms(1) aw] show ?thesis
    by (simp add: is_recent_def timedelta_hours_def dt_minus_cases cutoff_representable_def
        instant_shifted)
next
  case False
  then show ?thesis
    by (auto simp: is_recent_def timedelta_hours_def dt_minus_cases cutoff_representable_def)
qed

text \<open>
  C3, as stated, fails: the window is not arbitrary. With a window of \<open>10^8\<close> hours the
  cutoff lies before the year 1, the subtraction raises OverflowError and \<open>is_recent\<close>
  returns nothing, although the instant is later than \<open>now - w\<close>.
\<close>

theorem is_recent_huge_window_raises:
  "is_recent (Some (DateTime 1767095040000000 (Some 3600000000))) 100000000
       (DateTime 1767099600000000 (Some 3600000000)) = Inl OverflowError
   \<and> instant (DateTime 1767099600000000 (Some 3600000000)) - 100000000 * 3600000000
       \<le> instant (DateTime 1767095040000000 (Some 3600000000))"
  by (simp add: is_recent_def timedelta_hours_def dt_minus_def instant_def
      DATETIME_MIN_def DATETIME_MAX_def)

text \<open>
  C3, amended. For an aware instant \<open>t\<close>, a window of \<open>w\<close> hours and an aware clock
  reading \<open>now\<close>: when the cutoff \<open>now - w\<close> can be computed (the window fits a timedelta
  and the cutoff is within the range of datetime), \<open>is_recent\<close> returns True exactly when
  \<open>t \<ge> now - w\<close>, so the instant equal to \<open>now - w\<close> is recent; when it cannot,
  \<open>is_recent\<close> raises OverflowError. A missing instant (None) is not recent, whatever
  the window.
\<close>

theorem is_recent_iff:
  assumes "aware t" and "aware now"
  shows "(cutoff_representable w now \<longrightarrow>
            is_recent (Some t) w now = Inr (instant now - w * 3600000000 \<le> instant t)
            \<and> (instant t = instant now - w * 3600000000 \<longrightarrow> is_recent (Some t) w now = Inr True))
       \<and> (\<not> cutoff_representable w now \<longrightarrow> is_recent (Some t) w now = Inl OverflowError)
       \<and> is_recent None w now = Inr False"
proof -
  have none: "is_recent None w now = Inr False"
    by (simp add: is_recent_def)
  from is_recent_aware [OF assms, of w] none show ?thesis by simp
qed

theorem is_recent_iff_witness:
  "cutoff_representable 48 (DateTime 1767099240000000 (Some 3600000000))
   \<and> is_recent (Some (DateTime 1766926440000000 (Some 3600000000))) 48
        (DateTime 1767099240000000 (Some 3600000000)) = Inr True
   \<and> is_recent (Some (DateTime 1766926439999999 (Some 3600000000))) 48
        (DateTime 1767099240000000 (Some 3600000000)) = Inr False
   \<and> \<not> cutoff_representable 17760000 (DateTime 1767099240000000 (Some 3600000000))
   \<and> is_recent (Some (DateTime 1766926440000000 (Some 3600000000))) 17760000
        (DateTime 1767099240000000 (Some 3600000000)) = Inl OverflowError
   \<and> is_recent None 48 (DateTime 1767099240000000 (Some 3600000000)) = Inr False"
proof -
  have a: "aware (DateTime 1766926440000000 (Some 3600000000))"
    and b: "aware (DateTime 1766926439999999 (Some 3600000000))"
    and n: "aware (DateTime 1767099240000000 (Some 3600000000))"
    by (simp_all add: aware_def)
  have r: "cutoff_representable 48 (DateTime 1767099240000000 (Some 3600000000))"
    by (simp add: cutoff_representable_def DATETIME_MIN_def DATETIME_MAX_def)
  have u: "\<not> cutoff_representable 17760000 (DateTime 1767099240000000 (Some 3600000000))"
    by (simp add: cutoff_representable_def DATETIME_MIN_def DATETIME_MAX_def)
  show ?thesis
    using is_recent_iff [OF a n, of 48] is_recent_iff [OF b n, of 48]
      is_recent_iff [OF a n, of 17760000] r u
    by (simp add: instant_def)
qed

section \<open>Parsing timestamps\<close>

text \<open>
  C4, as stated, fails: a parseable timestamp without offset does not always come back
  localised. For the first instant of the datetime type the localisation raises, and
  \<open>parse_datetime\<close> returns None.
\<close>

theorem parse_datetime_first_instant_none:
  "fromisoformat datelib0 ''0001-01-01T00:00:00'' = Inr (DateTime (- 62135596800000000) None)
   \<and> tz_localize datelib0 ''Europe/Warsaw'' (DateTime (- 62135596800000000) None)
       = Inl OverflowError
   \<and> parse_datetime datelib0 ''0001-01-01T00:00:00'' = None"
  by (simp add: parse_datetime_def datelib0_def fromisoformat_table_def localize_winter_def
      DATETIME_MIN_def DATETIME_MAX_def)

lemma parse_datetime_zone_only:
  assumes "fromisoformat L = fromisoformat L'"
    and "tz_localize L ''Europe/Warsaw'' = tz_localize L' ''Europe/Warsaw''"
  shows "parse_datetime L s = parse_datetime L' s"
  using assms by (simp add: parse_datetime_def split: sum.splits)

text \<open>
  C4, amended. A string that \<open>fromisoformat\<close> parses to a naive datetime comes back as
  the library localises that datetime in the zone Europe/Warsaw, and as None when that
  localisation raises; in no case as anything else (not as UTC, not in another zone):
  two libraries that parse alike and localise alike in Europe/Warsaw give the same
  results, however they treat other zones. A string parsed to an aware datetime comes
  back as parsed. A string that \<open>fromisoformat\<close> rejects gives None, not an exception.
\<close>

theorem parse_datetime_naive_localized:
  "(fromisoformat L s = Inr dt \<and> utcoffset dt = None \<longrightarrow>
      parse_datetime L s =
        (case tz_localize L ''Europe/Warsaw'' dt of Inl e \<Rightarrow> None | Inr dt' \<Rightarrow> Some dt'))
   \<and> (fromisoformat L s = Inr dt \<and> utcoffset dt \<noteq> None \<longrightarrow> parse_datetime L s = Some dt)
   \<and> (fromisoformat L s = Inl e \<longrightarrow> parse_datetime L s = None)
   \<and> (fromisoformat L = fromisoformat L'
        \<and> tz_localize L ''Europe/Warsaw'' = tz_localize L' ''Europe/Warsaw''
      \<longrightarrow> parse_datetime L s = parse_datetime L' s)"
proof (intro conjI impI)
  assume "fromisoformat L s = Inr dt \<and> utcoffset dt = None"
  then show "parse_datetime L s =
        (case tz_localize L ''Europe/Warsaw'' dt of Inl e \<Rightarrow> None | Inr dt' \<Rightarrow> Some dt')"
    by (simp add: parse_datetime_def)
next
  assume "fromisoformat L s = Inr dt \<and> utcoffset dt \<noteq> None"
  then show "parse_datetime L s = Some dt"
    by (auto simp: parse_datetime_def)
next
  assume "fromisoformat L s = Inl e"
  then show "parse_datetime L s = None"
    by (simp add: parse_datetime_def)
next
  assume "fromisoformat L = fromisoformat L'
        \<and> tz_localize L ''Europe/Warsaw'' = tz_localize L' ''Europe/Warsaw''"
  then show "parse_datetime L s = parse_datetime L' s"
    using parse_datetime_zone_only [of L L' s] by simp
qed

theorem parse_datetime_naive_localized_witness:
  "parse_datetime datelib0 ''2025-12-30T11:44:00'' = Some (DateTime 1767095040000000 (Some 3600000000))
   \<and> parse_datetime datelib_utc ''2025-12-30T11:44:00'' = Some (DateTime 1767095040000000 (Some 0))
   \<and> parse_datetime datelib0 ''2025-12-30T11:44:00+01:00''
       = Some (DateTime 1767095040000000 (Some 3600000000))
   \<and> parse_datetime datelib0 ''30.12.2025 11:44'' = None
   \<and> parse_datetime datelib0 ''0001-01-01T00:00:00'' = None
   \<and> parse_datetime datelib_warsaw_only ''2025-12-30T11:44:00''
       = parse_datetime datelib0 ''2025-12-30T11:44:00''"
proof -
  have p: "fromisoformat datelib0 ''2025-12-30T11:44:00'' = Inr (DateTime 1767095040000000 None)"
    by (simp add: datelib0_def fromisoformat_table_def)
  have l: "tz_localize datelib0 ''Europe/Warsaw'' (DateTime 1767095040000000 None)
             = Inr (DateTime 1767095040000000 (Some 3600000000))"
    by (simp add: datelib0_def localize_winter_def DATETIME_MIN_def DATETIME_MAX_def)
  have q: "fromisoformat datelib0 ''2025-12-30T11:44:00+01:00''
             = Inr (DateTime 1767095040000000 (Some 3600000000))"
    by (simp add: datelib0_def fromisoformat_table_def)
  have f: "fromisoformat datelib0 ''30.12.2025 11:44'' = Inl ValueError"
    by (simp add: datelib0_def fromisoformat_table_def)
  have same: "fromisoformat datelib_warsaw_only = fromisoformat datelib0
      \<and> tz_localize datelib_warsaw_only ''Europe/Warsaw'' = tz_localize datelib0 ''Europe/Warsaw''"
    by (simp add: datelib0_def datelib_warsaw_only_def)
  have c1: "parse_datetime datelib0 ''2025-12-30T11:44:00''
              = Some (DateTime 1767095040000000 (Some 3600000000))"
    using parse_datetime_naive_localized
        [of datelib0 "''2025-12-30T11:44:00''" "DateTime 1767095040000000 None" ValueError datelib0]
      p l
    by simp
  have c2: "parse_datetime datelib_utc ''2025-12-30T11:44:00''
              = Some (DateTime 1767095040000000 (Some 0))"
    by (simp add: parse_datetime_def datelib_utc_def fromisoformat_table_def)
  have c3: "parse_datetime datelib0 ''2025-12-30T11:44:00+01:00''
              = Some (DateTime 1767095040000000 (Some 3600000000))"
    using parse_datetime_naive_localized
        [of datelib0 "''2025-12-30T11:44:00+01:00''"
            "DateTime 1767095040000000 (Some 3600000000)" ValueError datelib0]
      q
    by simp
  have c4: "parse_datetime datelib0 ''30.12.2025 11:44'' = None"
    using parse_datetime_naive_localized
        [of datelib0 "''30.12.2025 11:44''" "DateTime 0 None" ValueError datelib0] f
    by simp
  have first: "fromisoformat datelib0 ''0001-01-01T00:00:00''
                 = Inr (DateTime (- 62135596800000000) None)"
    by (simp add: datelib0_def fromisoformat_table_def)
  have raises: "tz_localize datelib0 ''Europe/Warsaw'' (DateTime (- 62135596800000000) None)
                  = Inl OverflowError"
    by (simp add: datelib0_def localize_winter_def DATETIME_MIN_def DATETIME_MAX_def)
  have c6: "parse_datetime datelib0 ''0001-01-01T00:00:00'' = None"
    using parse_datetime_naive_localized
        [of datelib0 "''0001-01-01T00:00:00''" "DateTime (- 62135596800000000) None" ValueError
            datelib0]
      first raises
    by simp
  have c5: "parse_datetime datelib_warsaw_only ''2025-12-30T11:44:00''
              = parse_datetime datelib0 ''2025-12-30T11:44:00''"
    using parse_datetime_naive_localized
        [of datelib_warsaw_only "''2025-12-30T11:44:00''" "DateTime 0 None" ValueError datelib0]
      same
    by blast
  from c1 c2 c3 c4 c5 c6 show ?thesis by blast
qed

section \<open>Deduplication keeps the first record of every guid\<close>

lemma remove_duplicates_loop_first_seen:
  "remove_duplicates_loop xs seen unique = unique @ first_seen seen xs"
  by (induction xs arbitrary: seen unique) auto

lemma remove_duplicates_first_seen: "remove_duplicates xs = first_seen {} xs"
  by (simp add: remove_duplicates_def remove_duplicates_loop_first_seen)

lemma guid_first_seen: "guid ` set (first_seen seen xs) = guid ` set xs - seen"
  by (induction xs arbitrary: seen) auto

lemma distinct_first_seen: "distinct (map guid (first_seen seen xs))"
proof (induction xs arbitrary: seen)
  case Nil
  show ?case by simp
next
  case (Cons a xs)
  have "guid a \<notin> guid ` set (first_seen (insert (guid a) seen) xs)"
    by (simp add: guid_first_seen)
  with Cons show ?case by simp
qed



lemma subseq_first_seen: "subseq (first_seen seen xs) xs"
  by (induction xs arbitrary: seen) auto

lemma find_first_seen:
  "find (\<lambda>a. guid a = g) (first_seen seen xs)
     = (if g \<in> seen then None else find (\<lambda>a. guid a = g) xs)"
proof (induction xs arbitrary: seen)
  case Nil
  show ?case by simp
next
  case (Cons a xs)
  show ?case
  proof (cases "guid a \<in> seen")
    case True
    then show ?thesis using Cons [of seen] by auto
  next
    case False
    then show ?thesis using Cons [of "insert (guid a) seen"] by auto
  qed
qed


section \<open>Extraction: skips, exceptions and the records built\<close>

lemma try_candidate_Inr: "\<exists>r. try_candidate E now d acc c = Inr r"
  by (auto simp: try_candidate_def split: prod.splits step.splits)

lemma candidates_loop_Inr: "\<exists>r. candidates_loop E clock idx cs d acc = Inr r"
proof (induction cs arbitrary: idx d acc)
  case Nil
  show ?case by simp
next
  case (Cons c cs)
  obtain acc' d' where "try_candidate E (clock idx) d acc c = Inr (acc', d')"
    using try_candidate_Inr [of E "clock idx" d acc c] by auto
  then show ?case using Cons [of "Suc idx" d' acc'] by simp
qed

lemma candidates_loop_append:
  "candidates_loop E clock idx (pre @ post) d acc =
     (case candidates_loop E clock idx pre d acc of
        Inl e \<Rightarrow> Inl e
      | Inr (acc1, d1) \<Rightarrow> candidates_loop E clock (idx + length pre) post d1 acc1)"
  by (induction pre arbitrary: idx d acc) (auto split: sum.splits)

lemma candidate_body_keeps_document:
  "candidate_body E now d c = (r, d') \<Longrightarrow> (\<And>a. r \<noteq> Go a) \<Longrightarrow> d' = d"
  by (auto simp: candidate_body_def split: step.splits prod.splits)

lemma title_and_link_Go:
  "title_and_link E d c = Go (t, l) \<Longrightarrow>
     find_el E d c ''span'' (Some ''entry-title'') \<noteq> None
     \<and> (\<exists>a h. title_anchor E d c = Some a \<and> get_attr E d a ''href'' = Some h \<and> h \<noteq> []
            \<and> t = get_text E d a)
     \<and> startswith l BASE_URL"
  by (auto simp: title_and_link_def title_anchor_def split: option.splits if_splits sum.splits)

lemma recent_pub_date_Go:
  "recent_pub_date E now d c = Go p \<Longrightarrow>
     (\<exists>t s. find_time_tag E d c = Some t \<and> get_attr E d t ''datetime'' = Some s \<and> s \<noteq> []
        \<and> parse_datetime (dates E) s = Some p)
     \<and> is_recent (Some p) TIME_FILTER_HOURS now = Inr True"
  by (auto simp: recent_pub_date_def split: option.splits if_splits sum.splits)

lemma candidate_body_Go:
  assumes "candidate_body E now d c = (Go a, d')"
  shows "\<exists>t l p. title_and_link E d c = Go (t, l) \<and> recent_pub_date E now d c = Go p
          \<and> d' = snd (find_description E d c)
          \<and> a = \<lparr>title = t, link = l,
                 description = (if fst (find_description E d c) = [] then t
                                else fst (find_description E d c)),
                 pub_date = p, guid = l\<rparr>"
  using assms by (auto simp: candidate_body_def split: step.splits prod.splits)

lemma malformed_no_record:
  assumes "malformed E now d c"
  shows "\<exists>r. candidate_body E now d c = (r, d) \<and> (\<forall>a. r \<noteq> Go a)"
proof -
  obtain r d' where b: "candidate_body E now d c = (r, d')"
    by (cases "candidate_body E now d c") auto
  have ng: "r \<noteq> Go a" for a
  proof
    assume "r = Go a"
    with b have g: "candidate_body E now d c = (Go a, d')" by simp
    from candidate_body_Go [OF g] obtain t l p where
      tl: "title_and_link E d c = Go (t, l)" and rp: "recent_pub_date E now d c = Go p"
      by blast
    from title_and_link_Go [OF tl] recent_pub_date_Go [OF rp] g assms
    show False by (auto simp: malformed_def)
  qed
  with candidate_body_keeps_document [OF b] b show ?thesis by auto
qed

lemma try_candidate_malformed:
  "malformed E now d c \<Longrightarrow> try_candidate E now d acc c = Inr (acc, d)"
  using malformed_no_record [of E now d c]
  by (auto simp: try_candidate_def split: step.splits)

lemma try_candidate_grows:
  "try_candidate E now d acc c = Inr (acc', d') \<Longrightarrow>
     acc' = acc \<or> (\<exists>a. candidate_body E now d c = (Go a, d') \<and> acc' = acc @ [a])"
  by (auto simp: try_candidate_def split: step.splits prod.splits if_splits)

lemma candidates_loop_grows:
  "candidates_loop E clock idx cs d acc = Inr (arts, d') \<Longrightarrow>
     \<exists>more. arts = acc @ more \<and> length more \<le> length cs"
proof (induction cs arbitrary: idx d acc)
  case Nil
  then show ?case by simp
next
  case (Cons c cs)
  from Cons.prems obtain acc1 d1 where
    t: "try_candidate E (clock idx) d acc c = Inr (acc1, d1)"
    and l: "candidates_loop E clock (Suc idx) cs d1 acc1 = Inr (arts, d')"
    by (auto split: sum.splits)
  from Cons.IH [OF l] obtain more where m: "arts = acc1 @ more" "length more \<le> length cs"
    by blast
  from try_candidate_grows [OF t] m show ?case by auto
qed

lemma candidates_loop_invariant:
  assumes body: "\<And>i d c a d'. candidate_body E (clock i) d c = (Go a, d') \<Longrightarrow> P a"
  shows "candidates_loop E clock idx cs d acc = Inr (arts, d') \<Longrightarrow> list_all P acc
           \<Longrightarrow> list_all P arts"
proof (induction cs arbitrary: idx d acc)
  case Nil
  then show ?case by simp
next
  case (Cons c cs)
  from Cons.prems(1) obtain acc1 d1 where
    t: "try_candidate E (clock idx) d acc c = Inr (acc1, d1)"
    and l: "candidates_loop E clock (Suc idx) cs d1 acc1 = Inr (arts, d')"
    by (auto split: sum.splits)
  from try_candidate_grows [OF t] body Cons.prems(2) have "list_all P acc1"
    by auto
  with Cons.IH [OF l] show ?case .
qed

lemma extract_invariant:
  assumes body: "\<And>i d c a d'. candidate_body E (clock i) d c = (Go a, d') \<Longrightarrow> P a"
    and ex: "extract_articles_from_page E clock soup n = Inr arts"
  shows "list_all P arts"
proof -
  from ex obtain d' where
    "candidates_loop E clock 1 (find_all E soup ''div'' ''article'') soup [] = Inr (arts, d')"
    by (auto simp: extract_articles_from_page_def split: sum.splits)
  from candidates_loop_invariant [of E clock P, OF body this] show ?thesis by simp
qed

text \<open>
  C2. Extraction of a page never raises: it returns a list. The loop only appends to the
  records collected so far, at most one record per candidate. A malformed candidate
  (title span missing, anchor or href missing, timestamp missing or unparseable, or an
  exception inside the body) at any position is skipped and nothing else: the candidates
  after it are processed from the same records and the same document as if it had not
  been there.
\<close>

theorem extraction_skips_locally:
  "(\<exists>arts. extract_articles_from_page E clock soup n = Inr arts)
   \<and> (\<exists>more d'. candidates_loop E clock idx cs d acc = Inr (acc @ more, d')
         \<and> length more \<le> length cs)
   \<and> (candidates_loop E clock idx pre d acc = Inr (acc1, d1)
        \<and> malformed E (clock (idx + length pre)) d1 c
      \<longrightarrow> candidates_loop E clock idx (pre @ c # post) d acc
            = candidates_loop E clock (Suc (idx + length pre)) post d1 acc1)"
proof (intro conjI impI)
  obtain r where "candidates_loop E clock 1 (find_all E soup ''div'' ''article'') soup [] = Inr r"
    using candidates_loop_Inr [of E clock 1 "find_all E soup ''div'' ''article''" soup "[]"] by auto
  then show "\<exists>arts. extract_articles_from_page E clock soup n = Inr arts"
    by (cases r) (simp add: extract_articles_from_page_def)
next
  obtain arts d' where l: "candidates_loop E clock idx cs d acc = Inr (arts, d')"
    using candidates_loop_Inr [of E clock idx cs d acc] by auto
  from candidates_loop_grows [OF l] l
  show "\<exists>more d'. candidates_loop E clock idx cs d acc = Inr (acc @ more, d')
         \<and> length more \<le> length cs"
    by auto
next
  assume a: "candidates_loop E clock idx pre d acc = Inr (acc1, d1)
        \<and> malformed E (clock (idx + length pre)) d1 c"
  then show "candidates_loop E clock idx (pre @ c # post) d acc
            = candidates_loop E clock (Suc (idx + length pre)) post d1 acc1"
    by (simp add: candidates_loop_append try_candidate_malformed)
qed


theorem extraction_skips_locally_witness:
  "candidates_loop dom_env noon_clock 1 [1] page_mixed []
       = Inr ([alpha_record], dom_decompose page_mixed 8)
   \<and> malformed dom_env (noon_clock (1 + length [1::nat])) (dom_decompose page_mixed 8) 9
   \<and> candidates_loop dom_env noon_clock 1 ([1] @ 9 # [11, 15]) page_mixed []
       = candidates_loop dom_env noon_clock (Suc (1 + length [1::nat])) [11, 15]
           (dom_decompose page_mixed 8) [alpha_record]
   \<and> fst (candidate_body dom_env (noon_clock 3) (dom_decompose page_mixed 8) 11)
       = Raise ValueError
   \<and> extract_articles_from_page dom_env noon_clock page_mixed 1
       = Inr [alpha_record, delta_record]"
proof -
  have pre: "candidates_loop dom_env noon_clock 1 [1] page_mixed []
       = Inr ([alpha_record], dom_decompose page_mixed 8)"
    by code_simp
  have bad: "malformed dom_env (noon_clock (1 + length [1::nat])) (dom_decompose page_mixed 8) 9"
    by code_simp
  have exn: "fst (candidate_body dom_env (noon_clock 3) (dom_decompose page_mixed 8) 11)
       = Raise ValueError"
    by code_simp
  have all: "extract_articles_from_page dom_env noon_clock page_mixed 1
       = Inr [alpha_record, delta_record]"
    by code_simp
  from extraction_skips_locally
         [of dom_env noon_clock page_mixed 1 1 "[]" page_mixed "[]" "[1]" "[alpha_record]"
             "dom_decompose page_mixed 8" 9 "[11, 15]"]
       pre bad exn all
  show ?thesis by blast
qed

text \<open>
  C1. The link of a record starts with the text of BASE_URL; that does not put it on the
  origin of BASE_URL. For the href \<^verbatim>\<open>https://www.bankier.pl.evil.com/x\<close> the code builds a
  record whose link has the origin \<^verbatim>\<open>https://www.bankier.pl.evil.com\<close>, although the
  comment above the test announces that external links are skipped.
\<close>

theorem extract_keeps_foreign_origin:
  "extract_articles_from_page dom_env noon_clock page_foreign 1 =
     Inr [\<lparr>title = ''Promo'', link = ''https://www.bankier.pl.evil.com/x'',
            description = ''Promo'',
            pub_date = DateTime 1767095040000000 (Some 3600000000),
            guid = ''https://www.bankier.pl.evil.com/x''\<rparr>]
   \<and> url_origin ''https://www.bankier.pl.evil.com/x'' = ''https://www.bankier.pl.evil.com''
   \<and> url_origin BASE_URL = ''https://www.bankier.pl''"
  by code_simp

text \<open>What the test on the link does guarantee, for every document and library.\<close>

lemma extracted_link_startswith_base:
  assumes "extract_articles_from_page E clock soup n = Inr arts"
  shows "list_all (\<lambda>a. startswith (link a) BASE_URL \<and> guid a = link a) arts"
proof (rule extract_invariant [OF _ assms])
  fix i d c a d'
  assume g: "candidate_body E (clock i) d c = (Go a, d')"
  from candidate_body_Go [OF g] obtain t l p where
    tl: "title_and_link E d c = Go (t, l)" and a: "link a = l" "guid a = l"
    by auto
  from title_and_link_Go [OF tl] a
  show "startswith (link a) BASE_URL \<and> guid a = link a" by simp
qed

text \<open>
  C9, as stated, fails: an anchor without text gives an empty title, and with no
  paragraph to take an excerpt from the description falls back to that empty title.
\<close>

theorem description_empty_when_title_empty:
  "extract_articles_from_page dom_env noon_clock page_untitled 1 =
     Inr [\<lparr>title = [], link = ''https://www.bankier.pl/wiadomosc/a-2.html'',
            description = [],
            pub_date = DateTime 1767095040000000 (Some 3600000000),
            guid = ''https://www.bankier.pl/wiadomosc/a-2.html''\<rparr>]"
  by code_simp

text \<open>
  C9, amended. The description of a record is the excerpt when the excerpt is not empty
  and the title of the record otherwise; so every record with a non-empty title has a
  non-empty description.
\<close>

theorem description_or_title:
  "(candidate_body E now d c = (Go a, d')
      \<longrightarrow> description a = (if fst (find_description E d c) = [] then title a
                           else fst (find_description E d c)))
   \<and> (extract_articles_from_page E clock soup n = Inr arts \<and> b \<in> set arts \<and> title b \<noteq> []
      \<longrightarrow> description b \<noteq> [])"
proof (intro conjI impI)
  assume g: "candidate_body E now d c = (Go a, d')"
  from candidate_body_Go [OF g]
  show "description a = (if fst (find_description E d c) = [] then title a
                           else fst (find_description E d c))"
    by auto
next
  assume h: "extract_articles_from_page E clock soup n = Inr arts \<and> b \<in> set arts \<and> title b \<noteq> []"
  have "list_all (\<lambda>a. title a \<noteq> [] \<longrightarrow> description a \<noteq> []) arts"
  proof (rule extract_invariant [of E clock _ soup n arts])
    fix i d c a d'
    assume g: "candidate_body E (clock i) d c = (Go a, d')"
    from candidate_body_Go [OF g] show "title a \<noteq> [] \<longrightarrow> description a \<noteq> []"
      by (auto split: if_splits)
  next
    from h show "extract_articles_from_page E clock soup n = Inr arts" by simp
  qed
  with h show "description b \<noteq> []" by (auto simp: list_all_iff)
qed

theorem description_or_title_witness:
  "candidate_body dom_env (noon_clock 4) page_mixed 15 = (Go delta_record, page_mixed)
   \<and> fst (find_description dom_env page_mixed 15) = []
   \<and> description delta_record = title delta_record
   \<and> extract_articles_from_page dom_env noon_clock page_mixed 1
       = Inr [alpha_record, delta_record]
   \<and> title alpha_record \<noteq> []
   \<and> description alpha_record \<noteq> []"
proof -
  have b: "candidate_body dom_env (noon_clock 4) page_mixed 15 = (Go delta_record, page_mixed)"
    by code_simp
  have f: "fst (find_description dom_env page_mixed 15) = []"
    by code_simp
  have x: "extract_articles_from_page dom_env noon_clock page_mixed 1
       = Inr [alpha_record, delta_record]"
    by code_simp
  have t: "title alpha_record \<noteq> []"
    by (simp add: alpha_record_def)
  from description_or_title
         [of dom_env "noon_clock 4" page_mixed 15 delta_record page_mixed noon_clock page_mixed 1
             "[alpha_record, delta_record]" alpha_record]
       b f x t
  show ?thesis by simp
qed

section \<open>Feed assembly: the order of the entries\<close>

lemma set_insert_newest_first: "set (insert_newest_first a bs) = insert a (set bs)"
  by (induction bs) auto

lemma descending_insert_newest_first:
  "sorted_wrt (\<lambda>x y. instant (pub_date y) \<le> instant (pub_date x)) bs \<Longrightarrow>
   sorted_wrt (\<lambda>x y. instant (pub_date y) \<le> instant (pub_date x)) (insert_newest_first a bs)"
  by (induction bs) (auto simp: set_insert_newest_first)

lemma filter_insert_newest_first:
  "sorted_wrt (\<lambda>x y. instant (pub_date y) \<le> instant (pub_date x)) bs \<Longrightarrow>
   filter (\<lambda>x. instant (pub_date x) = k) (insert_newest_first a bs)
     = (if instant (pub_date a) = k then a # filter (\<lambda>x. instant (pub_date x) = k) bs
        else filter (\<lambda>x. instant (pub_date x) = k) bs)"
proof (induction bs)
  case Nil
  show ?case by simp
next
  case (Cons b bs)
  show ?case
  proof (cases "instant (pub_date a) < instant (pub_date b)")
    case True
    with Cons show ?thesis by auto
  next
    case False
    then show ?thesis by simp
  qed
qed

lemma descending_foldr_insert:
  "sorted_wrt (\<lambda>x y. instant (pub_date y) \<le> instant (pub_date x))
     (foldr insert_newest_first xs [])"
  by (induction xs) (auto simp: descending_insert_newest_first)

lemma stable_foldr_insert:
  "filter (\<lambda>x. instant (pub_date x) = k) (foldr insert_newest_first xs [])
     = filter (\<lambda>x. instant (pub_date x) = k) xs"
  by (induction xs) (auto simp: filter_insert_newest_first descending_foldr_insert)

lemma set_foldr_insert: "set (foldr insert_newest_first xs []) = set xs"
  by (induction xs) (auto simp: set_insert_newest_first)

lemma length_insert_newest_first: "length (insert_newest_first a bs) = Suc (length bs)"
  by (induction bs) auto

lemma length_foldr_insert: "length (foldr insert_newest_first xs []) = length xs"
  by (induction xs) (auto simp: length_insert_newest_first)

lemma sorted_newest_first_aware:
  "list_all (\<lambda>a. aware (pub_date a)) xs \<Longrightarrow>
     sorted_newest_first xs = Inr (foldr insert_newest_first xs [])"
  by (simp add: sorted_newest_first_def)

lemma add_articles_aware:
  "list_all (\<lambda>a. aware (pub_date a)) xs \<Longrightarrow>
     add_articles xs fg = Inr (fg\<lparr>feed_entries := rev (map entry_of xs) @ feed_entries fg\<rparr>)"
  by (induction xs arbitrary: fg) (auto simp: add_entry_def)

lemma feed_entries_channel: "feed_entries (channel now) = []"
  by (simp add: channel_def FeedGenerator_def)

lemma generate_rss_feed_aware:
  assumes "list_all (\<lambda>a. aware (pub_date a)) xs"
  shows "generate_rss_feed xs path w = rss_file path (assembled (feed_clock w) xs) w"
proof -
  have "list_all (\<lambda>a. aware (pub_date a)) (foldr insert_newest_first xs [])"
    using assms by (simp add: list_all_iff set_foldr_insert)
  then show ?thesis
    using assms
    by (simp add: generate_rss_feed_def sorted_newest_first_aware add_articles_aware
        feed_entries_channel assembled_def Let_def)
qed

lemma assembled_oldest_first:
  "sorted_wrt (\<lambda>x y. instant (entry_published x) \<le> instant (entry_published y))
     (feed_entries (assembled now xs))"
  using descending_foldr_insert [of xs]
  by (simp add: assembled_def sorted_wrt_rev sorted_wrt_map entry_of_def)

text \<open>
  C6. The records are sorted by \<open>pub_date\<close> descending, stably
  (\<open>descending_foldr_insert\<close>, \<open>stable_foldr_insert\<close>), and handed to the feed
  generator in that order; but \<^verbatim>\<open>fg.add_entry()\<close> inserts each new entry at the beginning
  of the feed, so the feed that is handed to the writer lists them in the reverse order,
  oldest first (\<open>generate_rss_feed_aware\<close>, \<open>assembled_oldest_first\<close>). For an older and a newer record
  the file has the older one first.
\<close>

theorem feed_lists_oldest_first:
  "fst (generate_rss_feed [older_article, newer_article] OUTPUT_FILE (scripted_world [])) = Inr ()
   \<and> written_feeds (trace (snd (generate_rss_feed [older_article, newer_article] OUTPUT_FILE
        (scripted_world [])))) = [(''bankier_rss.xml'', [''Older'', ''Newer''])]
   \<and> instant (pub_date older_article) < instant (pub_date newer_article)"
  by code_simp


section \<open>Fetching: attempts and waits\<close>

lemma try_fetch_eq:
  "try_fetch url w =
     (attempt_outcome w url 0,
      w\<lparr>requests_sent := Suc (requests_sent w), trace := trace w @ [HttpGet url 15]\<rparr>)"
  by (simp add: try_fetch_def requests_get_def attempt_outcome_def split: sum.splits)

lemma failed_attempts_Suc:
  "failed_attempts url a (Suc k)
     = [HttpGet url 15, Sleep ((int a + 1) * 2)] @ failed_attempts url (Suc a) k"
  by (simp add: failed_attempts_def upt_conv_Cons)

lemma failed_attempts_0: "failed_attempts url a 0 = []"
  by (simp add: failed_attempts_def)

lemma fetch_attempts_schedule:
  assumes "a < nat retry"
  shows "\<exists>k. a + k < nat retry
           \<and> (\<forall>i<k. transport_failure (attempt_outcome w url i))
           \<and> (transport_failure (attempt_outcome w url k) \<longrightarrow> Suc (a + k) = nat retry)
           \<and> fetch_attempts url retry [a..<nat retry] w
               = (attempt_result (attempt_outcome w url k),
                  w\<lparr>requests_sent := requests_sent w + k + 1,
                    trace := trace w @ failed_attempts url a k @ [HttpGet url 15]\<rparr>)"
  using assms
proof (induction "nat retry - a" arbitrary: a w)
  case 0
  then show ?case by simp
next
  case (Suc m)
  have unf: "[a..<nat retry] = a # [Suc a..<nat retry]"
    using Suc.prems by (simp add: upt_conv_Cons)
  show ?case
  proof (cases "transport_failure (attempt_outcome w url 0) \<and> Suc a < nat retry")
    case False
    have "a + 0 < nat retry
           \<and> (\<forall>i<0::nat. transport_failure (attempt_outcome w url i))
           \<and> (transport_failure (attempt_outcome w url 0) \<longrightarrow> Suc (a + 0) = nat retry)
           \<and> fetch_attempts url retry [a..<nat retry] w
               = (attempt_result (attempt_outcome w url 0),
                  w\<lparr>requests_sent := requests_sent w + 0 + 1,
                    trace := trace w @ failed_attempts url a 0 @ [HttpGet url 15]\<rparr>)"
      using False Suc.prems
      by (auto simp: unf try_fetch_eq transport_failure_def attempt_result_def
          failed_attempts_0 split: sum.splits)
    then show ?thesis by blast
  next
    case True
    define w2 where "w2 = sleep ((int a + 1) * 2)
        (w\<lparr>requests_sent := Suc (requests_sent w), trace := trace w @ [HttpGet url 15]\<rparr>)"
    have step: "fetch_attempts url retry [a..<nat retry] w
                 = fetch_attempts url retry [Suc a..<nat retry] w2"
      using True by (auto simp: unf try_fetch_eq transport_failure_def w2_def split: sum.splits)
    have shift: "attempt_outcome w2 url i = attempt_outcome w url (Suc i)" for i
      by (simp add: attempt_outcome_def w2_def sleep_def)
    have m: "m = nat retry - Suc a" using Suc.hyps(2) by simp
    from Suc.hyps(1) [OF m, of w2] True obtain k where
      k: "Suc a + k < nat retry"
        "\<forall>i<k. transport_failure (attempt_outcome w2 url i)"
        "transport_failure (attempt_outcome w2 url k) \<longrightarrow> Suc (Suc a + k) = nat retry"
        "fetch_attempts url retry [Suc a..<nat retry] w2
               = (attempt_result (attempt_outcome w2 url k),
                  w2\<lparr>requests_sent := requests_sent w2 + k + 1,
                    trace := trace w2 @ failed_attempts url (Suc a) k @ [HttpGet url 15]\<rparr>)"
      by blast
    have fails: "\<forall>i<Suc k. transport_failure (attempt_outcome w url i)"
    proof (intro allI impI)
      fix i assume "i < Suc k"
      then show "transport_failure (attempt_outcome w url i)"
        using True k(2) shift by (cases i) auto
    qed
    have "a + Suc k < nat retry
           \<and> (\<forall>i<Suc k. transport_failure (attempt_outcome w url i))
           \<and> (transport_failure (attempt_outcome w url (Suc k)) \<longrightarrow> Suc (a + Suc k) = nat retry)
           \<and> fetch_attempts url retry [a..<nat retry] w
               = (attempt_result (attempt_outcome w url (Suc k)),
                  w\<lparr>requests_sent := requests_sent w + Suc k + 1,
                    trace := trace w @ failed_attempts url a (Suc k) @ [HttpGet url 15]\<rparr>)"
      using k(1,3,4) [unfolded shift] fails
      by (simp add: step failed_attempts_Suc w2_def sleep_def)
    then show ?thesis by blast
  qed
qed

text \<open>
  C7. With \<open>retry \<le> 0\<close> \<open>fetch_page\<close> makes no request and returns None. Otherwise it
  makes \<open>k + 1 \<le> retry\<close> requests with timeout 15: the first \<open>k\<close> attempts fail at
  transport level and attempt number \<open>i\<close> (from 1) is followed by a wait of \<open>2 * i\<close>
  seconds; the last attempt decides the result: its response, or None when it fails at
  transport level too, which happens only when it is attempt number \<open>retry\<close>. A
  transport-level failure always gives None, and no \<^verbatim>\<open>RequestException\<close> leaves the function.
\<close>

theorem fetch_page_schedule:
  "(retry \<le> 0 \<longrightarrow> fetch_page url retry w = (Inr None, w))
   \<and> (0 < retry \<longrightarrow>
        (\<exists>k<nat retry.
           (\<forall>i<k. transport_failure (attempt_outcome w url i))
           \<and> (transport_failure (attempt_outcome w url k) \<longrightarrow> Suc k = nat retry)
           \<and> fetch_page url retry w
               = (attempt_result (attempt_outcome w url k),
                  w\<lparr>requests_sent := requests_sent w + k + 1,
                    trace := trace w @ failed_attempts url 0 k @ [HttpGet url 15]\<rparr>)))
   \<and> (transport_failure x \<longrightarrow> attempt_result x = Inr None)
   \<and> (fst (fetch_page url retry w) = Inl e \<longrightarrow> \<not> is_RequestException e)"
proof -
  have zero: "retry \<le> 0 \<longrightarrow> fetch_page url retry w = (Inr None, w)"
    by (simp add: fetch_page_def)
  have pos: "0 < retry \<longrightarrow>
        (\<exists>k<nat retry.
           (\<forall>i<k. transport_failure (attempt_outcome w url i))
           \<and> (transport_failure (attempt_outcome w url k) \<longrightarrow> Suc k = nat retry)
           \<and> fetch_page url retry w
               = (attempt_result (attempt_outcome w url k),
                  w\<lparr>requests_sent := requests_sent w + k + 1,
                    trace := trace w @ failed_attempts url 0 k @ [HttpGet url 15]\<rparr>))"
  proof
    assume "0 < retry"
    then have "0 < nat retry" by simp
    from fetch_attempts_schedule [OF this, of w url]
    show "\<exists>k<nat retry.
           (\<forall>i<k. transport_failure (attempt_outcome w url i))
           \<and> (transport_failure (attempt_outcome w url k) \<longrightarrow> Suc k = nat retry)
           \<and> fetch_page url retry w
               = (attempt_result (attempt_outcome w url k),
                  w\<lparr>requests_sent := requests_sent w + k + 1,
                    trace := trace w @ failed_attempts url 0 k @ [HttpGet url 15]\<rparr>)"
      by (auto simp: fetch_page_def)
  qed
  have fail: "transport_failure x \<longrightarrow> attempt_result x = Inr None"
    by (auto simp: transport_failure_def attempt_result_def split: sum.splits)
  have noreq: "attempt_result y = Inl e \<Longrightarrow> \<not> is_RequestException e" for y :: "py_error + 'a response"
    by (auto simp: attempt_result_def split: sum.splits if_splits)
  have raise: "fst (fetch_page url retry w) = Inl e \<longrightarrow> \<not> is_RequestException e"
  proof (cases "0 < retry")
    case True
    with pos noreq show ?thesis by auto
  next
    case False
    with zero show ?thesis by simp
  qed
  from zero pos fail raise show ?thesis by blast
qed

theorem fetch_page_schedule_witness:
  "fst (fetch_page NEWS_URL 3 (scripted_world [Inl Timeout, status_response 503, Inl ConnectionError]))
     = Inr None
   \<and> trace (snd (fetch_page NEWS_URL 3
         (scripted_world [Inl Timeout, status_response 503, Inl ConnectionError])))
     = [HttpGet NEWS_URL 15, Sleep 2, HttpGet NEWS_URL 15, Sleep 4, HttpGet NEWS_URL 15]
   \<and> failed_attempts NEWS_URL 0 2
     = [HttpGet NEWS_URL 15, Sleep 2, HttpGet NEWS_URL 15, Sleep 4]
   \<and> attempt_result (attempt_outcome
         (scripted_world [Inl Timeout, status_response 503, Inl ConnectionError]) NEWS_URL 2)
     = Inr None
   \<and> fetch_page NEWS_URL 0 (scripted_world [ok_response page_mixed])
     = (Inr None, scripted_world [ok_response page_mixed])
   \<and> fst (fetch_page NEWS_URL 3 (scripted_world [Inl Timeout, ok_response page_foreign]))
     = Inr (Some \<lparr>status_code = 200, content = page_foreign,
                   resp_text = ''<html>listing</html>'', encoding = ''utf-8''\<rparr>)
   \<and> trace (snd (fetch_page NEWS_URL 3 (scripted_world [Inl Timeout, ok_response page_foreign])))
     = [HttpGet NEWS_URL 15, Sleep 2, HttpGet NEWS_URL 15]"
proof -
  have r: "fst (fetch_page NEWS_URL 3
               (scripted_world [Inl Timeout, status_response 503, Inl ConnectionError])) = Inr None"
    by code_simp
  have t: "trace (snd (fetch_page NEWS_URL 3
         (scripted_world [Inl Timeout, status_response 503, Inl ConnectionError])))
     = [HttpGet NEWS_URL 15, Sleep 2, HttpGet NEWS_URL 15, Sleep 4, HttpGet NEWS_URL 15]"
    by code_simp
  have f: "failed_attempts NEWS_URL 0 2
     = [HttpGet NEWS_URL 15, Sleep 2, HttpGet NEWS_URL 15, Sleep 4]"
    by code_simp
  have tf: "transport_failure (attempt_outcome
         (scripted_world [Inl Timeout, status_response 503, Inl ConnectionError]) NEWS_URL 2)"
    by code_simp
  have s: "fst (fetch_page NEWS_URL 3 (scripted_world [Inl Timeout, ok_response page_foreign]))
     = Inr (Some \<lparr>status_code = 200, content = page_foreign,
                   resp_text = ''<html>listing</html>'', encoding = ''utf-8''\<rparr>)"
    by code_simp
  have st: "trace (snd (fetch_page NEWS_URL 3 (scripted_world [Inl Timeout, ok_response page_foreign])))
     = [HttpGet NEWS_URL 15, Sleep 2, HttpGet NEWS_URL 15]"
    by code_simp
  from fetch_page_schedule
         [of 3 NEWS_URL "scripted_world [Inl Timeout, status_response 503, Inl ConnectionError]"
             "attempt_outcome
                (scripted_world [Inl Timeout, status_response 503, Inl ConnectionError]) NEWS_URL 2"]
       fetch_page_schedule
         [of 0 NEWS_URL "scripted_world [ok_response page_mixed]"
             "attempt_outcome
                (scripted_world [Inl Timeout, status_response 503, Inl ConnectionError]) NEWS_URL 2"]
       r t f tf s st
  show ?thesis by simp
qed


section \<open>The driver: exit status, feed and diagnostic dump\<close>

lemma is_recent_True_aware:
  "is_recent (Some p) h now = Inr True \<Longrightarrow> aware now \<Longrightarrow> aware p"
  by (auto simp: is_recent_def dt_ge_def dt_minus_def timedelta_hours_def aware_def
      split: option.splits if_splits)

lemma extracted_dates_aware:
  assumes "extract_articles_from_page E clock soup n = Inr arts" and "\<And>i. aware (clock i)"
  shows "list_all (\<lambda>a. aware (pub_date a)) arts"
proof (rule extract_invariant [OF _ assms(1)])
  fix i d c a d'
  assume g: "candidate_body E (clock i) d c = (Go a, d')"
  from candidate_body_Go [OF g] obtain p where
    "recent_pub_date E (clock i) d c = Go p" and "pub_date a = p"
    by auto
  with recent_pub_date_Go [of E "clock i" d c p] is_recent_True_aware [of p _ "clock i"] assms(2)
  show "aware (pub_date a)" by auto
qed

lemma fetch_attempts_static:
  "fetch_attempts url retry as w = (r, w') \<Longrightarrow>
     filter_clock w' = filter_clock w \<and> feed_clock w' = feed_clock w
     \<and> rss_writer w' = rss_writer w \<and> file_writer w' = file_writer w \<and> net w' = net w"
proof (induction as arbitrary: w)
  case Nil
  then show ?case by simp
next
  case (Cons a as)
  show ?case
  proof (cases "transport_failure (attempt_outcome w url 0) \<and> int a < retry - 1")
    case True
    then have "fetch_attempts url retry as
        (sleep ((int a + 1) * 2)
           (w\<lparr>requests_sent := Suc (requests_sent w), trace := trace w @ [HttpGet url 15]\<rparr>))
       = (r, w')"
      using Cons.prems
      by (auto simp: try_fetch_eq transport_failure_def split: sum.splits)
    from Cons.IH [OF this] show ?thesis by (simp add: sleep_def)
  next
    case False
    then show ?thesis using Cons.prems
      by (auto simp: try_fetch_eq transport_failure_def split: sum.splits if_splits)
  qed
qed

lemma fetch_page_filter_clock:
  "fetch_page url retry w = (r, w') \<Longrightarrow> filter_clock w' = filter_clock w"
  using fetch_attempts_static [of url retry "[0..<nat retry]" w r w']
  by (simp add: fetch_page_def)

lemma scan_pages_dates_aware:
  assumes "\<And>p i. aware (filter_clock w p i)"
  shows "scan_pages E pages acc w = (Inr arts, w') \<Longrightarrow> list_all (\<lambda>a. aware (pub_date a)) acc
           \<Longrightarrow> list_all (\<lambda>a. aware (pub_date a)) arts"
  using assms
proof (induction pages arbitrary: acc w)
  case Nil
  then show ?case by simp
next
  case (Cons page pages)
  obtain r w1 where f: "fetch_page (get_page_url page) 3 w = (r, w1)"
    by (cases "fetch_page (get_page_url page) 3 w") auto
  have clk: "filter_clock w1 = filter_clock w"
    using fetch_page_filter_clock [OF f] .
  show ?case
  proof (cases r)
    case (Inl e)
    with Cons.prems(1) f show ?thesis by simp
  next
    case (Inr opt)
    show ?thesis
    proof (cases opt)
      case None
      with Inr f Cons.prems(1) have "scan_pages E pages acc w1 = (Inr arts, w')" by simp
      from Cons.IH [OF this Cons.prems(2)] clk Cons.prems(3) show ?thesis by simp
    next
      case (Some response)
      obtain x where x: "extract_articles_from_page E (filter_clock w1 page)
                            (parse_html E (content response)) page = Inr x"
        using Cons.prems(1) f Inr Some by (auto split: sum.splits)
      have ax: "list_all (\<lambda>a. aware (pub_date a)) x"
        using extracted_dates_aware [OF x] clk Cons.prems(3) by simp
      let ?w2 = "if page < PAGES_TO_SCAN then sleep REQUEST_DELAY w1 else w1"
      have s: "scan_pages E pages (acc @ x) ?w2 = (Inr arts, w')"
        using Cons.prems(1) f Inr Some x by simp
      have c2: "filter_clock ?w2 = filter_clock w" using clk by (simp add: sleep_def)
      from Cons.IH [OF s] ax Cons.prems(2) c2 Cons.prems(3) show ?thesis by simp
    qed
  qed
qed

lemma remove_duplicates_nonempty: "xs \<noteq> [] \<Longrightarrow> remove_duplicates xs \<noteq> []"
  by (cases xs) (simp_all add: remove_duplicates_first_seen)

lemma remove_duplicates_subset: "set (remove_duplicates xs) \<subseteq> set xs"
  using subseq_first_seen [of "{}" xs] by (auto simp: remove_duplicates_first_seen dest: list_emb_set)

lemma written_feeds_append: "written_feeds (xs @ ys) = written_feeds xs @ written_feeds ys"
  by (induction xs rule: written_feeds.induct) auto

lemma debug_dump_effects:
  "requests_sent (debug_dump w) = Suc (requests_sent w)
   \<and> trace (debug_dump w)
       = trace w @ HttpGet NEWS_URL 10 #
           (case net w (requests_sent w) NEWS_URL of
              Inl e \<Rightarrow> []
            | Inr response \<Rightarrow>
                (case file_writer w ''debug.html'' (resp_text response) of
                   Some e \<Rightarrow> []
                 | None \<Rightarrow> [WriteFile ''debug.html'' (resp_text response)]))"
  by (simp add: debug_dump_def requests_get_def split: sum.splits option.splits)

lemma debug_dump_no_feed: "written_feeds (trace (debug_dump w)) = written_feeds (trace w)"
  by (simp add: debug_dump_effects written_feeds_append split: sum.splits option.splits)

lemma add_articles_Inr_aware:
  "add_articles xs fg = Inr fg' \<Longrightarrow> list_all (\<lambda>a. aware (pub_date a)) xs"
  by (induction xs arbitrary: fg) (auto split: if_splits)

lemma generate_rss_feed_Inr_aware:
  assumes "generate_rss_feed xs path w = (Inr u, w')"
  shows "list_all (\<lambda>a. aware (pub_date a)) xs"
proof -
  from assms obtain ys fg where
    s: "sorted_newest_first xs = Inr ys" and a: "add_articles ys (channel (feed_clock w)) = Inr fg"
    by (auto simp: generate_rss_feed_def Let_def split: sum.splits)
  from s have "set ys = set xs"
    by (auto simp: sorted_newest_first_def set_foldr_insert split: if_splits)
  with add_articles_Inr_aware [OF a] show ?thesis by (simp add: list_all_iff)
qed

lemma rss_file_Inr:
  "rss_file path fg w = (Inr u, w') \<Longrightarrow> w' = w\<lparr>trace := trace w @ [WriteRss path fg]\<rparr>"
  by (auto simp: rss_file_def split: if_splits option.splits)

lemma rss_file_Inl: "rss_file path fg w = (Inl e, w') \<Longrightarrow> w' = w"
  by (auto simp: rss_file_def split: if_splits option.splits)

lemma generate_rss_feed_success:
  assumes "generate_rss_feed xs path w = (Inr u, w')"
  shows "w' = w\<lparr>trace := trace w @ [WriteRss path (assembled (feed_clock w) xs)]\<rparr>"
  using assms generate_rss_feed_aware [OF generate_rss_feed_Inr_aware [OF assms], of path w]
  by (simp add: rss_file_Inr)

lemma generate_rss_feed_failure:
  "generate_rss_feed xs path w = (Inl e, w') \<Longrightarrow> w' = w"
  by (auto simp: generate_rss_feed_def Let_def rss_file_Inl split: sum.splits)

lemma rss_file_written:
  assumes "\<not> list_ex (\<lambda>a. title a = [] \<and> description a = []) xs"
    and "rss_writer w path (assembled (feed_clock w) xs) = None"
  shows "rss_file path (assembled (feed_clock w) xs) w
           = (Inr (), w\<lparr>trace := trace w @ [WriteRss path (assembled (feed_clock w) xs)]\<rparr>)"
proof -
  have "\<not> list_ex (\<lambda>e. entry_title e = [] \<and> entry_description e = [])
            (feed_entries (assembled (feed_clock w) xs))"
    using assms(1)
    by (auto simp: assembled_def list_ex_iff set_foldr_insert entry_of_def)
  moreover have "feed_title (assembled (feed_clock w) xs) \<noteq> []
      \<and> feed_link (assembled (feed_clock w) xs) \<noteq> []
      \<and> feed_description (assembled (feed_clock w) xs) \<noteq> []"
    by (simp add: assembled_def channel_def FeedGenerator_def NEWS_URL_def BASE_URL_def)
  ultimately show ?thesis using assms(2) by (simp add: rss_file_def)
qed

lemma find_distinct_guid:
  "distinct (map guid xs) \<Longrightarrow> a \<in> set xs \<Longrightarrow> find (\<lambda>b. guid b = guid a) xs = Some a"
  by (induction xs) (auto simp: image_iff)

lemma assembled_entries:
  "set (feed_entries (assembled now xs)) = entry_of ` set xs
   \<and> length (feed_entries (assembled now xs)) = length xs"
  by (simp add: assembled_def set_foldr_insert length_foldr_insert)

lemma entry_id_entry_of: "entry_id (entry_of a) = guid a"
  by (simp add: entry_of_def)

lemma deduplicated_entries:
  "distinct (map entry_id (feed_entries (assembled now (remove_duplicates all))))
   \<and> entry_id ` set (feed_entries (assembled now (remove_duplicates all))) = guid ` set all
   \<and> (\<forall>e \<in> set (feed_entries (assembled now (remove_duplicates all))).
         \<exists>a. find (\<lambda>b. guid b = entry_id e) all = Some a \<and> e = entry_of a)"
proof (intro conjI ballI)
  let ?xs = "remove_duplicates all"
  let ?es = "feed_entries (assembled now ?xs)"
  have dx: "distinct (map guid ?xs)"
    by (simp add: remove_duplicates_first_seen distinct_first_seen)
  have ids: "set (map entry_id ?es) = set (map guid ?xs)"
    using assembled_entries [of now ?xs] by (auto simp: image_iff entry_id_entry_of)
  have "card (set (map entry_id ?es)) = length (map entry_id ?es)"
    using ids distinct_card [OF dx] assembled_entries [of now ?xs] by simp
  then show "distinct (map entry_id ?es)" by (rule card_distinct)
  show "entry_id ` set ?es = guid ` set all"
    using ids by (simp add: remove_duplicates_first_seen guid_first_seen)
  fix e assume "e \<in> set ?es"
  then obtain a where a: "a \<in> set ?xs" "e = entry_of a"
    using assembled_entries [of now ?xs] by auto
  from find_distinct_guid [OF dx a(1)]
  have "find (\<lambda>b. guid b = guid a) all = Some a"
    by (simp add: remove_duplicates_first_seen find_first_seen)
  with a(2) show "\<exists>a. find (\<lambda>b. guid b = entry_id e) all = Some a \<and> e = entry_of a"
    by (auto simp: entry_id_entry_of)
qed

lemma main_after_scan:
  "scan_pages E [1..<PAGES_TO_SCAN + 1] [] w = (Inr all, w1) \<Longrightarrow> main E w = finish all w1"
  by (simp add: main_def)

lemma scan_result:
  "fst (scan_pages E pages acc w) = Inr all
     \<Longrightarrow> scan_pages E pages acc w = (Inr all, snd (scan_pages E pages acc w))"
  by (simp add: prod_eq_iff)

text \<open>
  C8, as stated, fails: a non-empty accumulator does not always end in a written feed
  and status 0. When only the first page can be fetched and its one candidate has an
  anchor without text and no paragraph, the accumulator holds one record, the feed
  library refuses the entry without title and description, the exception leaves
  \<open>main\<close>, no feed is written and the exit status is 1.
\<close>

theorem nonempty_run_without_feed:
  "fst (scan_pages dom_env [1..<PAGES_TO_SCAN + 1] [] world_untitled_page)
     = Inr [\<lparr>title = [], link = ''https://www.bankier.pl/wiadomosc/a-2.html'',
              description = [], pub_date = DateTime 1767095040000000 (Some 3600000000),
              guid = ''https://www.bankier.pl/wiadomosc/a-2.html''\<rparr>]
   \<and> fst (main dom_env world_untitled_page) = Inl ValueError
   \<and> exit_status dom_env world_untitled_page = 1
   \<and> written_feeds (trace (snd (main dom_env world_untitled_page))) = []"
  by code_simp

text \<open>
  C8, amended. Let the page loop end with the accumulated list \<open>all\<close> in the world \<open>w1\<close>.
  \<^item> If \<open>all\<close> is empty, \<open>main\<close> makes the diagnostic dump (one request for NEWS_URL
    with timeout 10 and, when it is answered and the file can be written, the write of
    the answer's text to debug.html) and returns 1; no feed is written.
  \<^item> If \<open>all\<close> is not empty, the clock readings are aware (as \<^verbatim>\<open>datetime.now(tz)\<close> gives
    them), no record lacks both title and description, and the write does not fail,
    \<open>main\<close> writes to OUTPUT_FILE the feed assembled from the deduplicated list and
    returns 0.
  \<^item> Status 0 is returned only so: after that feed has been written.
  \<^item> If \<open>all\<close> is not empty and the status is not 0, an exception has left \<open>main\<close>, the
    status is 1 and nothing has been written.
  \<^item> The entries of that feed carry each guid of \<open>all\<close> exactly once, each entry is made
    from the first record of \<open>all\<close> with its guid, and there is at least one entry when
    \<open>all\<close> is not empty.
\<close>

theorem main_exit_status:
  assumes scan: "scan_pages E [1..<PAGES_TO_SCAN + 1] [] w = (Inr all, w1)"
  shows "(all = [] \<longrightarrow>
            main E w = (Inr 1, debug_dump w1) \<and> exit_status E w = 1
            \<and> written_feeds (trace (debug_dump w1)) = written_feeds (trace w1)
            \<and> trace (debug_dump w1)
                = trace w1 @ HttpGet NEWS_URL 10 #
                    (case net w1 (requests_sent w1) NEWS_URL of
                       Inl e \<Rightarrow> []
                     | Inr response \<Rightarrow>
                         (case file_writer w1 ''debug.html'' (resp_text response) of
                            Some e \<Rightarrow> []
                          | None \<Rightarrow> [WriteFile ''debug.html'' (resp_text response)])))
       \<and> (all \<noteq> [] \<and> (\<forall>p i. aware (filter_clock w p i))
            \<and> \<not> list_ex (\<lambda>a. title a = [] \<and> description a = []) all
            \<and> rss_writer w1 OUTPUT_FILE (assembled (feed_clock w1) (remove_duplicates all)) = None
          \<longrightarrow> main E w = (Inr 0, w1\<lparr>trace := trace w1 @
                     [WriteRss OUTPUT_FILE (assembled (feed_clock w1) (remove_duplicates all))]\<rparr>)
              \<and> exit_status E w = 0)
       \<and> (exit_status E w = 0 \<longrightarrow>
            all \<noteq> []
            \<and> main E w = (Inr 0, w1\<lparr>trace := trace w1 @
                  [WriteRss OUTPUT_FILE (assembled (feed_clock w1) (remove_duplicates all))]\<rparr>))
       \<and> (all \<noteq> [] \<and> exit_status E w \<noteq> 0 \<longrightarrow>
            exit_status E w = 1 \<and> (\<exists>e. main E w = (Inl e, w1)))
       \<and> distinct (map entry_id (feed_entries (assembled (feed_clock w1) (remove_duplicates all))))
       \<and> entry_id ` set (feed_entries (assembled (feed_clock w1) (remove_duplicates all)))
            = guid ` set all
       \<and> (\<forall>e \<in> set (feed_entries (assembled (feed_clock w1) (remove_duplicates all))).
             \<exists>a. find (\<lambda>b. guid b = entry_id e) all = Some a \<and> e = entry_of a)
       \<and> (all \<noteq> [] \<longrightarrow>
             feed_entries (assembled (feed_clock w1) (remove_duplicates all)) \<noteq> [])"
proof -
  let ?fg = "assembled (feed_clock w1) (remove_duplicates all)"
  let ?w2 = "w1\<lparr>trace := trace w1 @ [WriteRss OUTPUT_FILE ?fg]\<rparr>"
  have m: "main E w = finish all w1"
    by (rule main_after_scan [OF scan])
  have empty: "all = [] \<longrightarrow>
            main E w = (Inr 1, debug_dump w1) \<and> exit_status E w = 1
            \<and> written_feeds (trace (debug_dump w1)) = written_feeds (trace w1)
            \<and> trace (debug_dump w1)
                = trace w1 @ HttpGet NEWS_URL 10 #
                    (case net w1 (requests_sent w1) NEWS_URL of
                       Inl e \<Rightarrow> []
                     | Inr response \<Rightarrow>
                         (case file_writer w1 ''debug.html'' (resp_text response) of
                            Some e \<Rightarrow> []
                          | None \<Rightarrow> [WriteFile ''debug.html'' (resp_text response)]))"
    using m debug_dump_effects [of w1] debug_dump_no_feed [of w1]
    by (simp add: finish_def exit_status_def)
  have written: "all \<noteq> [] \<and> (\<forall>p i. aware (filter_clock w p i))
            \<and> \<not> list_ex (\<lambda>a. title a = [] \<and> description a = []) all
            \<and> rss_writer w1 OUTPUT_FILE ?fg = None
          \<longrightarrow> main E w = (Inr 0, ?w2) \<and> exit_status E w = 0"
  proof
    assume h: "all \<noteq> [] \<and> (\<forall>p i. aware (filter_clock w p i))
            \<and> \<not> list_ex (\<lambda>a. title a = [] \<and> description a = []) all
            \<and> rss_writer w1 OUTPUT_FILE ?fg = None"
    have "list_all (\<lambda>a. aware (pub_date a)) all"
      using scan_pages_dates_aware [of w E "[1..<PAGES_TO_SCAN + 1]" "[]" all w1] scan h by simp
    then have aw: "list_all (\<lambda>a. aware (pub_date a)) (remove_duplicates all)"
      using remove_duplicates_subset [of all] by (auto simp: list_all_iff)
    have ok: "\<not> list_ex (\<lambda>a. title a = [] \<and> description a = []) (remove_duplicates all)"
      using h remove_duplicates_subset [of all] by (auto simp: list_ex_iff)
    from generate_rss_feed_aware [OF aw, of OUTPUT_FILE w1] rss_file_written [OF ok, of w1 OUTPUT_FILE] h
    have "generate_rss_feed (remove_duplicates all) OUTPUT_FILE w1 = (Inr (), ?w2)"
      by simp
    with h m have "main E w = (Inr 0, ?w2)" by (simp add: finish_def)
    then show "main E w = (Inr 0, ?w2) \<and> exit_status E w = 0"
      by (simp add: exit_status_def)
  qed
  obtain r w3 where g: "generate_rss_feed (remove_duplicates all) OUTPUT_FILE w1 = (r, w3)"
    by (cases "generate_rss_feed (remove_duplicates all) OUTPUT_FILE w1") auto
  have zero: "exit_status E w = 0 \<longrightarrow> all \<noteq> [] \<and> main E w = (Inr 0, ?w2)"
  proof
    assume z: "exit_status E w = 0"
    have ne: "all \<noteq> []"
    proof
      assume "all = []"
      with m z show False by (simp add: finish_def exit_status_def)
    qed
    from z ne g m obtain u where r: "r = Inr u"
      by (cases r) (auto simp: finish_def exit_status_def)
    from generate_rss_feed_success [OF g [unfolded r]] g r ne m
    show "all \<noteq> [] \<and> main E w = (Inr 0, ?w2)"
      by (simp add: finish_def)
  qed
  have failed: "all \<noteq> [] \<and> exit_status E w \<noteq> 0 \<longrightarrow>
            exit_status E w = 1 \<and> (\<exists>e. main E w = (Inl e, w1))"
  proof
    assume h: "all \<noteq> [] \<and> exit_status E w \<noteq> 0"
    with g m obtain e where r: "r = Inl e"
      by (cases r) (auto simp: finish_def exit_status_def)
    from generate_rss_feed_failure [OF g [unfolded r]] g r h m
    show "exit_status E w = 1 \<and> (\<exists>e. main E w = (Inl e, w1))"
      by (simp add: finish_def exit_status_def)
  qed
  have some: "all \<noteq> [] \<longrightarrow> feed_entries ?fg \<noteq> []"
    using assembled_entries [of "feed_clock w1" "remove_duplicates all"]
      remove_duplicates_nonempty [of all]
    by auto
  from empty written zero failed some deduplicated_entries [of "feed_clock w1" all]
  show ?thesis by blast
qed

theorem main_exit_status_witness:
  "fst (scan_pages dom_env [1..<PAGES_TO_SCAN + 1] [] world_offline) = Inr []
   \<and> exit_status dom_env world_offline = 1
   \<and> written_feeds (trace (snd (main dom_env world_offline))) = []
   \<and> drop 25 (trace (snd (main dom_env world_offline))) = [HttpGet NEWS_URL 10]
   \<and> fst (scan_pages dom_env [1..<PAGES_TO_SCAN + 1] [] world_same_page_twice)
       = Inr [alpha_record, delta_record, alpha_record, delta_record]
   \<and> exit_status dom_env world_same_page_twice = 0
   \<and> written_feeds (trace (snd (main dom_env world_same_page_twice)))
       = [(''bankier_rss.xml'', [''Delta'', ''Alpha''])]
   \<and> fst (scan_pages dom_env [1..<PAGES_TO_SCAN + 1] [] world_read_only)
       = Inr [alpha_record, delta_record]
   \<and> exit_status dom_env world_read_only = 1
   \<and> fst (main dom_env world_read_only) = Inl OSError
   \<and> written_feeds (trace (snd (main dom_env world_read_only))) = []"
proof -
  let ?pages = "[1..<PAGES_TO_SCAN + 1]"
  let ?w1 = "snd (scan_pages dom_env ?pages [] world_same_page_twice)"
  let ?all = "[alpha_record, delta_record, alpha_record, delta_record]"
  have off: "fst (scan_pages dom_env ?pages [] world_offline) = Inr []"
    by code_simp
  have nofeed: "written_feeds (trace (snd (main dom_env world_offline))) = []"
    by code_simp
  have dump: "drop 25 (trace (snd (main dom_env world_offline))) = [HttpGet NEWS_URL 10]"
    by code_simp
  have on: "fst (scan_pages dom_env ?pages [] world_same_page_twice) = Inr ?all"
    by code_simp
  have clock: "\<forall>p i. aware (filter_clock world_same_page_twice p i)"
    by (simp add: world_same_page_twice_def scripted_world_def noon_clock_def aware_def)
  have texts: "\<not> list_ex (\<lambda>a. title a = [] \<and> description a = []) ?all"
    by (simp add: alpha_record_def delta_record_def)
  have writer: "rss_writer ?w1 OUTPUT_FILE (assembled (feed_clock ?w1) (remove_duplicates ?all))
                  = None"
    by code_simp
  have feeds: "written_feeds (trace (snd (main dom_env world_same_page_twice)))
       = [(''bankier_rss.xml'', [''Delta'', ''Alpha''])]"
    by code_simp
  have ro: "fst (scan_pages dom_env ?pages [] world_read_only) = Inr [alpha_record, delta_record]"
    by code_simp
  have ro_main: "fst (main dom_env world_read_only) = Inl OSError"
    by code_simp
  have ro_feed: "written_feeds (trace (snd (main dom_env world_read_only))) = []"
    by code_simp
  from main_exit_status [OF scan_result [OF off]]
  have e1: "exit_status dom_env world_offline = 1" by simp
  from main_exit_status [OF scan_result [OF on]] clock texts writer
  have e0: "exit_status dom_env world_same_page_twice = 0" by blast
  from ro_main have "exit_status dom_env world_read_only \<noteq> 0"
    by (simp add: exit_status_def)
  with main_exit_status [OF scan_result [OF ro]]
  have e2: "exit_status dom_env world_read_only = 1" by blast
  from off e1 nofeed dump on e0 feeds ro e2 ro_main ro_feed show ?thesis by blast
qed

text \<open>
  C10. When the page loop has collected nothing, \<open>main\<close> returns 1 whatever the dump does.
  The dump makes exactly one more request, for NEWS_URL with timeout 10, with no retry
  when it fails; when that request is answered (with any status) and the file can be
  written, the text of that very answer goes to debug.html; a failure of the request or
  of the write leaves no further effect.
\<close>

theorem debug_dump_fresh_request:
  assumes scan: "scan_pages E [1..<PAGES_TO_SCAN + 1] [] w = (Inr [], w1)"
  shows "main E w = (Inr 1, debug_dump w1) \<and> exit_status E w = 1
       \<and> requests_sent (debug_dump w1) = Suc (requests_sent w1)
       \<and> trace (debug_dump w1)
           = trace w1 @ HttpGet NEWS_URL 10 #
               (case net w1 (requests_sent w1) NEWS_URL of
                  Inl e \<Rightarrow> []
                | Inr response \<Rightarrow>
                    (case file_writer w1 ''debug.html'' (resp_text response) of
                       Some e \<Rightarrow> []
                     | None \<Rightarrow> [WriteFile ''debug.html'' (resp_text response)]))"
proof -
  from main_after_scan [OF scan] have m: "main E w = (Inr 1, debug_dump w1)"
    by (simp add: finish_def)
  then have "exit_status E w = 1" by (simp add: exit_status_def)
  with m debug_dump_effects [of w1] show ?thesis by simp
qed


theorem debug_dump_fresh_request_witness:
  "fst (scan_pages dom_env [1..<PAGES_TO_SCAN + 1] [] world_dump_404) = Inr []
   \<and> exit_status dom_env world_dump_404 = 1
   \<and> requests_sent (snd (main dom_env world_dump_404)) = 16
   \<and> drop 25 (trace (snd (main dom_env world_dump_404)))
       = [HttpGet NEWS_URL 10, WriteFile ''debug.html'' ''<html>error</html>'']
   \<and> drop 25 (trace (snd (main dom_env world_offline))) = [HttpGet NEWS_URL 10]"
proof -
  let ?pages = "[1..<PAGES_TO_SCAN + 1]"
  have s: "fst (scan_pages dom_env ?pages [] world_dump_404) = Inr []"
    by code_simp
  have n: "requests_sent (snd (main dom_env world_dump_404)) = 16"
    by code_simp
  have t: "drop 25 (trace (snd (main dom_env world_dump_404)))
       = [HttpGet NEWS_URL 10, WriteFile ''debug.html'' ''<html>error</html>'']"
    by code_simp
  have o: "drop 25 (trace (snd (main dom_env world_offline))) = [HttpGet NEWS_URL 10]"
    by code_simp
  from debug_dump_fresh_request [OF scan_result [OF s]]
  have e: "exit_status dom_env world_dump_404 = 1" by simp
  from s e n t o show ?thesis by simp
qed

end
